theory Spec2Isabelle
  imports Complex_Main
begin

section \<open>JavaScript numbers\<close>

text \<open>
  The calculator computes with JavaScript numbers, which are IEEE binary64 values. Two
  readings of its arithmetic are given. In the exact reading a finite value is a real
  and every operation is exact; the properties of the schedule and of the projection
  that say which quantity enters which field, and in which order, are stated over it.
  In the binary64 reading, given further down, every operation returns the double
  nearest to its exact result; the properties that depend on that rounding (the
  accounting identities, the search of the solver and whether it ends, the inputs
  outside the domain) are stated over it. In both readings the three non-finite values
  are kept for the one place where finite operands produce them, the division that
  yields \<open>ltvRatio\<close>, and for \<open>Math.max\<close> of no arguments. Overflow to an infinity and
  the sign of zero are not modelled. A number of years is an integer, of either sign.
\<close>

datatype jsnum = Fin real | PosInf | NegInf | NaN

datatype error = TypeError

text \<open>\<open>Math.round\<close>: the nearest integer, a tie going towards plus infinity.\<close>

definition Math_round :: "real \<Rightarrow> real" where
  "Math_round x = of_int \<lfloor>x + 1 / 2\<rfloor>"

text \<open>\<open>a / b\<close> on finite operands: a zero divisor gives \<open>NaN\<close> or an infinity.\<close>

definition js_div :: "real \<Rightarrow> real \<Rightarrow> jsnum" where
  "js_div a b =
     (if b \<noteq> 0 then Fin (a / b)
      else if a = 0 then NaN
      else if 0 < a then PosInf else NegInf)"

text \<open>\<open>x * c\<close> for a finite \<open>c\<close>.\<close>

fun js_times :: "jsnum \<Rightarrow> real \<Rightarrow> jsnum" where
  "js_times (Fin x) c = Fin (x * c)"
| "js_times NaN c = NaN"
| "js_times PosInf c = (if 0 < c then PosInf else if c < 0 then NegInf else NaN)"
| "js_times NegInf c = (if 0 < c then NegInf else if c < 0 then PosInf else NaN)"

text \<open>\<open>Math.round\<close> leaves the non-finite values as they are.\<close>

fun js_round :: "jsnum \<Rightarrow> jsnum" where
  "js_round (Fin x) = Fin (Math_round x)"
| "js_round v = v"

text \<open>\<open>Math.max\<close>: \<open>NaN\<close> if any argument is, \<open>-Infinity\<close> for no arguments.\<close>

fun js_max :: "jsnum \<Rightarrow> jsnum \<Rightarrow> jsnum" where
  "js_max NaN b = NaN"
| "js_max a NaN = NaN"
| "js_max PosInf b = PosInf"
| "js_max a PosInf = PosInf"
| "js_max NegInf b = b"
| "js_max a NegInf = a"
| "js_max (Fin x) (Fin y) = Fin (max x y)"

definition Math_max :: "jsnum list \<Rightarrow> jsnum" where
  "Math_max vs = foldr js_max vs NegInf"

text \<open>\<open>v <= m\<close> for a finite \<open>m\<close>: every comparison with \<open>NaN\<close> is false.\<close>

fun js_le :: "jsnum \<Rightarrow> real \<Rightarrow> bool" where
  "js_le (Fin x) m = (x \<le> m)"
| "js_le NegInf m = True"
| "js_le PosInf m = False"
| "js_le NaN m = False"

fun is_finite :: "jsnum \<Rightarrow> bool" where
  "is_finite (Fin x) = True"
| "is_finite v = False"

section \<open>Data model\<close>

record growthRateEntry =
  year :: int
  rate :: real

text \<open>
  The fields of the inputs object that the three functions read. (The object also
  carries \<open>initialGrowthRate\<close>, \<open>terminalGrowthRate\<close> and \<open>useOptimalExpenses\<close>, which
  only the component reads.)
\<close>

record inputs =
  bitcoinAmount :: real
  bitcoinPrice :: real
  years :: int
  interestRate :: real
  inflationRate :: real
  maxLTV :: real
  annualExpenses :: real
  growthRates :: "growthRateEntry list"

text \<open>
  One element of the array \<open>calculateProjections\<close> returns. Its \<open>year\<close> and
  \<open>annualExpenses\<close> fields are named \<open>proj_year\<close> and \<open>proj_annualExpenses\<close> here.
\<close>

record projection =
  proj_year :: int
  growthRate :: real
  bitcoinPriceStart :: real
  bitcoinPriceEnd :: real
  portfolioValue :: real
  totalBorrowed :: real
  totalInterest :: real
  totalDebt :: real
  netWorth :: real
  ltvRatio :: jsnum
  proj_annualExpenses :: real

section \<open>generateGrowthRates\<close>

text \<open>The body of the \<open>for\<close> loop: the entry pushed for \<open>year\<close>.\<close>

definition growth_entry :: "real \<Rightarrow> real \<Rightarrow> int \<Rightarrow> growthRateEntry" where
  "growth_entry initialRate terminalRate y =
     (let transitionYears = 9;
          decay = (initialRate - terminalRate) / transitionYears;
          r = (if y < 10
               then max terminalRate (initialRate - (decay * (of_int y - 1)))
               else terminalRate)
      in \<lparr> year = y, rate = Math_round (r * 100) / 100 \<rparr>)"

text \<open>The \<open>for\<close> loop: \<open>y\<close> is the loop variable \<open>year\<close>, \<open>n\<close> the argument \<open>years\<close>.\<close>

function gen_loop :: "real \<Rightarrow> real \<Rightarrow> int \<Rightarrow> int \<Rightarrow> growthRateEntry list" where
  "gen_loop initialRate terminalRate n y =
     (if y \<le> n
      then growth_entry initialRate terminalRate y # gen_loop initialRate terminalRate n (y + 1)
      else [])"
  by pat_completeness auto
termination
  by (relation "measure (\<lambda>(i, t, n, y). nat (n + 1 - y))") auto

declare gen_loop.simps [simp del]

text \<open>The loop starts at \<open>year = 1\<close> and runs while \<open>year <= years\<close>.\<close>

definition generateGrowthRates :: "real \<Rightarrow> real \<Rightarrow> int \<Rightarrow> growthRateEntry list" where
  "generateGrowthRates initialRate terminalRate n = gen_loop initialRate terminalRate n 1"

section \<open>calculateProjections\<close>

text \<open>
  \<open>inputs.growthRates.find(g => g.year === year)?.rate ||
   inputs.growthRates[inputs.growthRates.length - 1].rate\<close>:
  a rate of zero is falsy, so it falls through to the last entry like a missing entry;
  reading \<open>.rate\<close> of the last entry of an empty array throws.
\<close>

definition last_rate :: "growthRateEntry list \<Rightarrow> error + real" where
  "last_rate gs = (if gs = [] then Inl TypeError else Inr (rate (last gs)))"

definition lookup_growthRate :: "growthRateEntry list \<Rightarrow> int \<Rightarrow> error + real" where
  "lookup_growthRate gs y =
     (case find (\<lambda>g. year g = y) gs of
        Some g \<Rightarrow> (if rate g \<noteq> 0 then Inr (rate g) else last_rate gs)
      | None \<Rightarrow> last_rate gs)"

text \<open>
  The rest of the loop body, from the growth rate on: the record pushed for \<open>y\<close>.
  \<open>tb\<close> and \<open>ti\<close> are \<open>totalBorrowed\<close> and \<open>totalInterest\<close> after this year's update.
\<close>

definition emit :: "inputs \<Rightarrow> int \<Rightarrow> real \<Rightarrow> real \<Rightarrow> real \<Rightarrow> real \<Rightarrow> real \<Rightarrow> projection" where
  "emit inp y tb ti inflatedExpenses bitcoinValue g =
     (let nextBitcoinValue = bitcoinValue * (1 + g / 100);
          pv = nextBitcoinValue * bitcoinAmount inp;
          td = tb + ti;
          nw = pv - td;
          startYearPortfolioValue = bitcoinValue * bitcoinAmount inp;
          ltv = js_times (js_div td startYearPortfolioValue) 100
      in \<lparr> proj_year = y,
           growthRate = g,
           bitcoinPriceStart = Math_round bitcoinValue,
           bitcoinPriceEnd = Math_round nextBitcoinValue,
           portfolioValue = Math_round pv,
           totalBorrowed = Math_round tb,
           totalInterest = Math_round ti,
           totalDebt = Math_round td,
           netWorth = Math_round nw,
           ltvRatio = js_round ltv,
           proj_annualExpenses = Math_round inflatedExpenses \<rparr>)"

text \<open>
  The \<open>for\<close> loop, with the four mutable locals as arguments; \<open>i\<close> is the loop counter.
\<close>

function proj_loop ::
  "inputs \<Rightarrow> int \<Rightarrow> real \<Rightarrow> real \<Rightarrow> real \<Rightarrow> real \<Rightarrow> error + projection list" where
  "proj_loop inp i tb ti inflatedExpenses bitcoinValue =
     (if i < years inp then
        (let y = i + 1;
             newInterest = tb * (interestRate inp / 100);
             ti' = ti + newInterest;
             tb' = tb + inflatedExpenses
         in case lookup_growthRate (growthRates inp) y of
              Inl e \<Rightarrow> Inl e
            | Inr g \<Rightarrow>
               (case proj_loop inp (i + 1) tb' ti'
                       (inflatedExpenses * (1 + inflationRate inp / 100))
                       (bitcoinValue * (1 + g / 100)) of
                  Inl e \<Rightarrow> Inl e
                | Inr rest \<Rightarrow> Inr (emit inp y tb' ti' inflatedExpenses bitcoinValue g # rest)))
      else Inr [])"
  by pat_completeness auto
termination
  by (relation "measure (\<lambda>(inp, i, tb, ti, e, b). nat (years inp - i))") auto

declare proj_loop.simps [simp del]

definition calculateProjections :: "inputs \<Rightarrow> error + projection list" where
  "calculateProjections inp = proj_loop inp 0 0 0 (annualExpenses inp) (bitcoinPrice inp)"

section \<open>The test of the solver\<close>

text \<open>The test of one candidate: \<open>Math.max(...projections.map(p => p.ltvRatio)) <= maxLTV\<close>.\<close>

definition maxLTVInProjections :: "projection list \<Rightarrow> jsnum" where
  "maxLTVInProjections ps = Math_max (map ltvRatio ps)"

section \<open>Binary64 arithmetic\<close>

text \<open>
  A finite double is \<open>m * 2 ^ q\<close> for integers \<open>m\<close> and \<open>q\<close> with \<open>\<bar>m\<bar> \<le> 2 ^ 53\<close> and
  \<open>- 1074 \<le> q\<close>. \<open>expo x\<close> is the binary exponent of \<open>x\<close>, the integer \<open>e\<close> with
  \<open>2 ^ e \<le> \<bar>x\<bar> < 2 ^ (e + 1)\<close>.
\<close>

function expo :: "real \<Rightarrow> int" where
  "expo x =
     (if x = 0 then 0
      else if 2 \<le> \<bar>x\<bar> then expo (x / 2) + 1
      else if \<bar>x\<bar> < 1 then expo (x * 2) - 1
      else 0)"
  by pat_completeness auto
termination
proof (relation "measure (\<lambda>x. nat \<bar>\<lfloor>log 2 \<bar>x\<bar>\<rfloor>\<bar>)", goal_cases)
  case 1
  show ?case by simp
next
  case (2 x)
  then have "log 2 \<bar>x / 2\<bar> = log 2 \<bar>x\<bar> - 1"
    by (simp add: log_divide)
  then have "\<lfloor>log 2 \<bar>x / 2\<bar>\<rfloor> = \<lfloor>log 2 \<bar>x\<bar>\<rfloor> - 1"
    by (simp only: floor_diff_one)
  moreover have "1 \<le> log 2 \<bar>x\<bar>"
    using 2 by (simp add: le_log_iff)
  then have "1 \<le> \<lfloor>log 2 \<bar>x\<bar>\<rfloor>"
    by (simp add: le_floor_iff)
  ultimately show ?case
    by (simp only: in_measure; linarith?)
next
  case (3 x)
  then have "log 2 \<bar>x * 2\<bar> = log 2 \<bar>x\<bar> + 1"
    by (simp add: log_mult abs_mult)
  then have "\<lfloor>log 2 \<bar>x * 2\<bar>\<rfloor> = \<lfloor>log 2 \<bar>x\<bar>\<rfloor> + 1"
    by (simp only: one_add_floor [symmetric])
  moreover have "log 2 \<bar>x\<bar> < 0"
    using 3 by simp
  then have "\<lfloor>log 2 \<bar>x\<bar>\<rfloor> < 0"
    by (simp add: floor_less_iff)
  ultimately show ?case
    by (simp only: in_measure; linarith?)
qed

declare expo.simps [simp del]

text \<open>The nearest integer, a tie going to the even one.\<close>

definition rne :: "real \<Rightarrow> int" where
  "rne y =
     (let f = \<lfloor>y\<rfloor>; d = y - of_int f
      in if d < 1 / 2 then f
         else if 1 / 2 < d then f + 1
         else if even f then f else f + 1)"

text \<open>
  The exponent of the unit in the last place of the doubles of the magnitude of \<open>x\<close>:
  52 below the binary exponent, and never below \<open>- 1074\<close> (gradual underflow).
\<close>

definition qexp :: "real \<Rightarrow> int" where
  "qexp x = max (expo x) (- 1022) - 52"

text \<open>
  The double nearest to \<open>x\<close>, a tie going to the even significand: the result that every
  JavaScript operation on finite operands returns for its exact result \<open>x\<close>. The range
  has no upper end here: a result beyond the largest double, about \<open>1.8e308\<close>, is not
  turned into an infinity.
\<close>

definition fl :: "real \<Rightarrow> real" where
  "fl x = of_int (rne (x / 2 powi qexp x)) * 2 powi qexp x"

text \<open>
  \<open>a / b\<close> and \<open>x * c\<close> in binary64. A zero divisor is read as \<open>+0\<close>, the zero that the
  product of a price and an amount is when neither is negative.
\<close>

definition div64 :: "real \<Rightarrow> real \<Rightarrow> jsnum" where
  "div64 a b =
     (if b \<noteq> 0 then Fin (fl (a / b))
      else if a = 0 then NaN
      else if 0 < a then PosInf else NegInf)"

fun times64 :: "jsnum \<Rightarrow> real \<Rightarrow> jsnum" where
  "times64 (Fin x) c = Fin (fl (x * c))"
| "times64 NaN c = NaN"
| "times64 PosInf c = (if 0 < c then PosInf else if c < 0 then NegInf else NaN)"
| "times64 NegInf c = (if 0 < c then NegInf else if c < 0 then PosInf else NaN)"

section \<open>calculateProjections in binary64\<close>

text \<open>
  The loop body and the loop of \<open>calculateProjections\<close> once more, with every operation
  of the source rounded where the source performs it: \<open>bitcoinValue * (1 + growthRate / 100)\<close>
  is three operations, a division, an addition and a multiplication. \<open>Math.round\<close> of a
  double is exact.
\<close>

definition emit64 :: "inputs \<Rightarrow> int \<Rightarrow> real \<Rightarrow> real \<Rightarrow> real \<Rightarrow> real \<Rightarrow> real \<Rightarrow> projection" where
  "emit64 inp y tb ti inflatedExpenses bitcoinValue g =
     (let nextBitcoinValue = fl (bitcoinValue * fl (1 + fl (g / 100)));
          pv = fl (nextBitcoinValue * bitcoinAmount inp);
          td = fl (tb + ti);
          nw = fl (pv - td);
          startYearPortfolioValue = fl (bitcoinValue * bitcoinAmount inp);
          ltv = times64 (div64 td startYearPortfolioValue) 100
      in \<lparr> proj_year = y,
           growthRate = g,
           bitcoinPriceStart = Math_round bitcoinValue,
           bitcoinPriceEnd = Math_round nextBitcoinValue,
           portfolioValue = Math_round pv,
           totalBorrowed = Math_round tb,
           totalInterest = Math_round ti,
           totalDebt = Math_round td,
           netWorth = Math_round nw,
           ltvRatio = js_round ltv,
           proj_annualExpenses = Math_round inflatedExpenses \<rparr>)"

function proj_loop64 ::
  "inputs \<Rightarrow> int \<Rightarrow> real \<Rightarrow> real \<Rightarrow> real \<Rightarrow> real \<Rightarrow> error + projection list" where
  "proj_loop64 inp i tb ti inflatedExpenses bitcoinValue =
     (if i < years inp then
        (let y = i + 1;
             newInterest = fl (tb * fl (interestRate inp / 100));
             ti' = fl (ti + newInterest);
             tb' = fl (tb + inflatedExpenses)
         in case lookup_growthRate (growthRates inp) y of
              Inl e \<Rightarrow> Inl e
            | Inr g \<Rightarrow>
               (case proj_loop64 inp (i + 1) tb' ti'
                       (fl (inflatedExpenses * fl (1 + fl (inflationRate inp / 100))))
                       (fl (bitcoinValue * fl (1 + fl (g / 100)))) of
                  Inl e \<Rightarrow> Inl e
                | Inr rest \<Rightarrow> Inr (emit64 inp y tb' ti' inflatedExpenses bitcoinValue g # rest)))
      else Inr [])"
  by pat_completeness auto
termination
  by (relation "measure (\<lambda>(inp, i, tb, ti, e, b). nat (years inp - i))") auto

declare proj_loop64.simps [simp del]

definition calculateProjections64 :: "inputs \<Rightarrow> error + projection list" where
  "calculateProjections64 inp = proj_loop64 inp 0 0 0 (annualExpenses inp) (bitcoinPrice inp)"

section \<open>findOptimalAnnualExpenses\<close>

text \<open>
  The \<open>while\<close> loop, in binary64; \<open>m\<close> is the local \<open>maxLTV\<close>. The test
  \<open>high - low > PRECISION\<close> compares the rounded difference, and \<open>(low + high) / 2\<close>
  rounds the sum and then the half. The loop need not exit: the result \<open>None\<close> is a
  loop that runs forever.
\<close>

partial_function (option) search_loop64 ::
  "inputs \<Rightarrow> real \<Rightarrow> real \<Rightarrow> real \<Rightarrow> real \<Rightarrow> (error + real) option" where
  "search_loop64 inp m low high optimalExpenses =
     (if 100 < fl (high - low) then
        (let mid = fl (fl (low + high) / 2)
         in case calculateProjections64 (inp\<lparr>annualExpenses := mid\<rparr>) of
              Inl e \<Rightarrow> Some (Inl e)
            | Inr ps \<Rightarrow>
               (if js_le (maxLTVInProjections ps) m
                then search_loop64 inp m mid high mid
                else search_loop64 inp m low mid optimalExpenses))
      else Some (Inr (Math_round optimalExpenses)))"

text \<open>
  \<open>high\<close> starts at \<open>inputs.bitcoinPrice * inputs.bitcoinAmount\<close>, and the local
  \<open>maxLTV\<close> is \<open>inputs.maxLTV || 50\<close>: zero is falsy.
\<close>

definition findOptimalAnnualExpenses64 :: "inputs \<Rightarrow> (error + real) option" where
  "findOptimalAnnualExpenses64 inp =
     search_loop64 inp (if maxLTV inp \<noteq> 0 then maxLTV inp else 50)
       0 (fl (bitcoinPrice inp * bitcoinAmount inp)) 0"



section \<open>The recurrence of the projection, year by year\<close>

text \<open>
  The quantities that the loop of \<open>calculateProjections\<close> carries, written as
  recurrences over the number \<open>n\<close> of completed years, in the order of the
  specification: interest accrues on the balance borrowed so far, then the year's
  expenses are drawn, then the price grows and the expenses inflate.
\<close>

text \<open>The growth rate the lookup yields for year \<open>y\<close> (zero stands for a lookup that throws).\<close>

definition rate_used :: "inputs \<Rightarrow> int \<Rightarrow> real" where
  "rate_used inp y = (case lookup_growthRate (growthRates inp) y of Inr g \<Rightarrow> g | Inl e \<Rightarrow> 0)"

text \<open>The price after \<open>n\<close> years: the start-of-year price of year \<open>n + 1\<close>.\<close>

fun price_after :: "inputs \<Rightarrow> nat \<Rightarrow> real" where
  "price_after inp 0 = bitcoinPrice inp"
| "price_after inp (Suc n) = price_after inp n * (1 + rate_used inp (int n + 1) / 100)"

text \<open>The expenses drawn in year \<open>n + 1\<close>.\<close>

definition expenses_in :: "inputs \<Rightarrow> nat \<Rightarrow> real" where
  "expenses_in inp n = annualExpenses inp * (1 + inflationRate inp / 100) ^ n"

fun borrowed_after :: "inputs \<Rightarrow> nat \<Rightarrow> real" where
  "borrowed_after inp 0 = 0"
| "borrowed_after inp (Suc n) = borrowed_after inp n + expenses_in inp n"

fun interest_after :: "inputs \<Rightarrow> nat \<Rightarrow> real" where
  "interest_after inp 0 = 0"
| "interest_after inp (Suc n) = interest_after inp n + borrowed_after inp n * (interestRate inp / 100)"

text \<open>The price after \<open>n\<close> years in binary64.\<close>

fun price64 :: "inputs \<Rightarrow> nat \<Rightarrow> real" where
  "price64 inp 0 = bitcoinPrice inp"
| "price64 inp (Suc n) = fl (price64 inp n * fl (1 + fl (rate_used inp (int n + 1) / 100)))"

text \<open>The snapshot of year \<open>n + 1\<close> in terms of the recurrences.\<close>

definition snapshot :: "inputs \<Rightarrow> nat \<Rightarrow> projection" where
  "snapshot inp n = emit inp (int n + 1) (borrowed_after inp (Suc n)) (interest_after inp (Suc n))
      (expenses_in inp n) (price_after inp n) (rate_used inp (int n + 1))"

text \<open>
  Sample inputs: the initial state of the component (three bitcoin at 100000, 14 percent
  interest, 3 percent inflation, growth from 60 to 15 percent, expenses of 150000), with
  a horizon of three years.
\<close>

definition sample_inputs :: inputs where
  "sample_inputs =
     \<lparr> bitcoinAmount = 3, bitcoinPrice = 100000, years = 3, interestRate = 14,
       inflationRate = 3, maxLTV = 50, annualExpenses = 150000,
       growthRates = generateGrowthRates 60 15 3 \<rparr>"

text \<open>
  Inputs on which the price collapses: a schedule of \<open>-100\<close> percent a year, as
  \<open>generateGrowthRates(-100, -100, 2)\<close> gives it, takes the price to zero after the
  first year.
\<close>

definition collapse_inputs :: inputs where
  "collapse_inputs =
     \<lparr> bitcoinAmount = 1, bitcoinPrice = 200, years = 2, interestRate = 0,
       inflationRate = 0, maxLTV = 50, annualExpenses = 0,
       growthRates = generateGrowthRates (- 100) (- 100) 2 \<rparr>"

text \<open>
  Inputs whose schedule has an entry with a rate of zero: \<open>generateGrowthRates(2, -16, 3)\<close>
  decays by 2 a year, from 2 over 0 to \<open>-2\<close>.
\<close>

definition zero_rate_inputs :: inputs where
  "zero_rate_inputs =
     \<lparr> bitcoinAmount = 1, bitcoinPrice = 100000, years = 3, interestRate = 0,
       inflationRate = 0, maxLTV = 50, annualExpenses = 10000,
       growthRates = generateGrowthRates 2 (- 16) 3 \<rparr>"

text \<open>
  Inputs of one year: one bitcoin at 100000 that doubles, expenses of 10000. The same
  without any bitcoin.
\<close>

definition plain_inputs :: inputs where
  "plain_inputs =
     \<lparr> bitcoinAmount = 1, bitcoinPrice = 100000, years = 1, interestRate = 0,
       inflationRate = 0, maxLTV = 50, annualExpenses = 10000,
       growthRates = [\<lparr>year = 1, rate = 100\<rparr>] \<rparr>"

definition no_bitcoin_inputs :: inputs where
  "no_bitcoin_inputs = plain_inputs\<lparr>bitcoinAmount := 0\<rparr>"

text \<open>
  Inputs with a price of \<open>2 ^ 60\<close>, where neighbouring doubles are 256 apart, and
  expenses of 101.
\<close>

definition huge_inputs :: inputs where
  "huge_inputs =
     \<lparr> bitcoinAmount = 1, bitcoinPrice = 1152921504606846976, years = 1, interestRate = 0,
       inflationRate = 0, maxLTV = 50, annualExpenses = 101,
       growthRates = [\<lparr>year = 1, rate = 100\<rparr>] \<rparr>"

text \<open>
  Inputs with a price of \<open>2 ^ 59 + 128\<close>, the first double above \<open>2 ^ 59\<close>: the doubles
  are 128 apart above \<open>2 ^ 59\<close> and 64 apart below it.
\<close>

definition stuck_inputs :: inputs where
  "stuck_inputs =
     \<lparr> bitcoinAmount = 1, bitcoinPrice = 576460752303423616, years = 1, interestRate = 0,
       inflationRate = 0, maxLTV = 100, annualExpenses = 0,
       growthRates = [\<lparr>year = 1, rate = 100\<rparr>] \<rparr>"

section \<open>Rounding\<close>

lemma Math_round_mono: "x \<le> y \<Longrightarrow> Math_round x \<le> Math_round y"
  unfolding Math_round_def by (simp add: floor_mono)

lemma Math_round_upper: "Math_round x \<le> x + 1 / 2"
  unfolding Math_round_def by (rule of_int_floor_le)

lemma Math_round_lower: "x - 1 / 2 < Math_round x"
  unfolding Math_round_def by linarith

lemma Math_round_of_int [simp]: "Math_round (of_int z) = of_int z"
proof -
  have "\<lfloor>(of_int z :: real) + 1 / 2\<rfloor> = z"
    by (rule floor_unique) simp_all
  then show ?thesis by (simp add: Math_round_def)
qed

lemma Math_round_0 [simp]: "Math_round 0 = 0"
  using Math_round_of_int [of 0] by simp

section \<open>The growth schedule\<close>

lemma gen_loop_upto:
  "gen_loop initialRate terminalRate n y = map (growth_entry initialRate terminalRate) [y..n]"
proof (induction initialRate terminalRate n y rule: gen_loop.induct)
  case (1 initialRate terminalRate n y)
  show ?case
  proof (cases "y \<le> n")
    case True
    then show ?thesis
      using 1 by (subst gen_loop.simps) (simp add: upto_rec1)
  next
    case False
    then show ?thesis
      by (subst gen_loop.simps) simp
  qed
qed

lemma growth_entry_rate:
  "growth_entry initialRate terminalRate y =
     \<lparr> year = y,
       rate = Math_round ((if 10 \<le> y then terminalRate
                           else max terminalRate
                                  (initialRate - (initialRate - terminalRate) / 9 * (of_int y - 1)))
                          * 100) / 100 \<rparr>"
  by (simp add: growth_entry_def Let_def)

text \<open>
  C6. \<open>generateGrowthRates(60, 15, 20)\<close> is the list of twenty entries for the years
  1 to 20 whose rates fall by 5 a year from 60 in year 1 to 15 in year 10 and stay at 15
  from year 11 to year 20. In general the schedule has one entry for each year \<open>y\<close> of
  \<open>1..years\<close>, in order, and its rate is \<open>terminalRate\<close> when \<open>y \<ge> 10\<close> and
  \<open>max(terminalRate, initialRate - decay * (y - 1))\<close> with
  \<open>decay = (initialRate - terminalRate) / 9\<close> otherwise, rounded to two decimals.
\<close>

theorem generateGrowthRates_schedule:
  "generateGrowthRates 60 15 20 =
     [\<lparr>year = 1, rate = 60\<rparr>, \<lparr>year = 2, rate = 55\<rparr>, \<lparr>year = 3, rate = 50\<rparr>,
      \<lparr>year = 4, rate = 45\<rparr>, \<lparr>year = 5, rate = 40\<rparr>, \<lparr>year = 6, rate = 35\<rparr>,
      \<lparr>year = 7, rate = 30\<rparr>, \<lparr>year = 8, rate = 25\<rparr>, \<lparr>year = 9, rate = 20\<rparr>,
      \<lparr>year = 10, rate = 15\<rparr>, \<lparr>year = 11, rate = 15\<rparr>, \<lparr>year = 12, rate = 15\<rparr>,
      \<lparr>year = 13, rate = 15\<rparr>, \<lparr>year = 14, rate = 15\<rparr>, \<lparr>year = 15, rate = 15\<rparr>,
      \<lparr>year = 16, rate = 15\<rparr>, \<lparr>year = 17, rate = 15\<rparr>, \<lparr>year = 18, rate = 15\<rparr>,
      \<lparr>year = 19, rate = 15\<rparr>, \<lparr>year = 20, rate = 15\<rparr>]
   \<and> generateGrowthRates initialRate terminalRate n =
       map (\<lambda>y. \<lparr> year = y,
                  rate = Math_round ((if 10 \<le> y then terminalRate
                                      else max terminalRate
                                             (initialRate - (initialRate - terminalRate) / 9 * (of_int y - 1)))
                                     * 100) / 100 \<rparr>) [1..n]"
proof
  have "[1..20::int] = [1,2,3,4,5,6,7,8,9,10,11,12,13,14,15,16,17,18,19,20]"
    by (simp add: upto_rec1)
  then show "generateGrowthRates 60 15 20 =
     [\<lparr>year = 1, rate = 60\<rparr>, \<lparr>year = 2, rate = 55\<rparr>, \<lparr>year = 3, rate = 50\<rparr>,
      \<lparr>year = 4, rate = 45\<rparr>, \<lparr>year = 5, rate = 40\<rparr>, \<lparr>year = 6, rate = 35\<rparr>,
      \<lparr>year = 7, rate = 30\<rparr>, \<lparr>year = 8, rate = 25\<rparr>, \<lparr>year = 9, rate = 20\<rparr>,
      \<lparr>year = 10, rate = 15\<rparr>, \<lparr>year = 11, rate = 15\<rparr>, \<lparr>year = 12, rate = 15\<rparr>,
      \<lparr>year = 13, rate = 15\<rparr>, \<lparr>year = 14, rate = 15\<rparr>, \<lparr>year = 15, rate = 15\<rparr>,
      \<lparr>year = 16, rate = 15\<rparr>, \<lparr>year = 17, rate = 15\<rparr>, \<lparr>year = 18, rate = 15\<rparr>,
      \<lparr>year = 19, rate = 15\<rparr>, \<lparr>year = 20, rate = 15\<rparr>]"
    by (simp add: generateGrowthRates_def gen_loop_upto growth_entry_rate Math_round_def)
next
  show "generateGrowthRates initialRate terminalRate n =
       map (\<lambda>y. \<lparr> year = y,
                  rate = Math_round ((if 10 \<le> y then terminalRate
                                      else max terminalRate
                                             (initialRate - (initialRate - terminalRate) / 9 * (of_int y - 1)))
                                     * 100) / 100 \<rparr>) [1..n]"
    unfolding generateGrowthRates_def gen_loop_upto
    by (rule map_cong) (simp_all add: growth_entry_rate)
qed

lemma growth_entry_clamped:
  assumes "initialRate \<le> terminalRate"
  shows "growth_entry initialRate terminalRate y =
           \<lparr> year = y, rate = Math_round (terminalRate * 100) / 100 \<rparr>"
proof (cases "y < 10")
  case True
  have "(initialRate - terminalRate) * ((10 - of_int y) / 9) \<le> 0"
    using assms True by (intro mult_nonpos_nonneg) simp_all
  then have "initialRate - (initialRate - terminalRate) / 9 * (of_int y - 1) \<le> terminalRate"
    by (simp add: field_simps)
  then show ?thesis using True by (simp add: growth_entry_def Let_def max_def)
next
  case False
  then show ?thesis by (simp add: growth_entry_def Let_def)
qed

text \<open>
  C9. If \<open>initialRate < terminalRate\<close>, the schedule is the constant one: for every year
  from year 1 on, the rate is \<open>terminalRate\<close> rounded to two decimals. If the two rates
  are equal, every entry has that same constant rate as well.
\<close>

theorem upward_or_flat_schedule_is_constant:
  "(initialRate < terminalRate \<longrightarrow>
      generateGrowthRates initialRate terminalRate n =
        map (\<lambda>y. \<lparr> year = y, rate = Math_round (terminalRate * 100) / 100 \<rparr>) [1..n])
   \<and> (initialRate = terminalRate \<longrightarrow>
      (\<forall>e \<in> set (generateGrowthRates initialRate terminalRate n).
         rate e = Math_round (terminalRate * 100) / 100))"
  by (auto simp: generateGrowthRates_def gen_loop_upto growth_entry_clamped)

theorem upward_or_flat_schedule_is_constant_witness:
  "(10::real) < 15
   \<and> generateGrowthRates 10 15 3 =
        [\<lparr>year = 1, rate = 15\<rparr>, \<lparr>year = 2, rate = 15\<rparr>, \<lparr>year = 3, rate = 15\<rparr>]
   \<and> (15::real) = 15
   \<and> length (generateGrowthRates 15 15 12) = 12
   \<and> rate (generateGrowthRates 15 15 12 ! 0) = 15
   \<and> rate (generateGrowthRates 15 15 12 ! 11) = 15"
proof -
  have up: "[1..3::int] = [1, 2, 3]" by (simp add: upto_rec1)
  have a: "generateGrowthRates 10 15 3 =
        [\<lparr>year = 1, rate = 15\<rparr>, \<lparr>year = 2, rate = 15\<rparr>, \<lparr>year = 3, rate = 15\<rparr>]"
    using upward_or_flat_schedule_is_constant [of 10 15 3] by (simp add: up Math_round_def)
  have len: "length (generateGrowthRates 15 15 12) = 12"
    by (simp add: generateGrowthRates_def gen_loop_upto)
  have b: "\<forall>e \<in> set (generateGrowthRates 15 15 12). rate e = 15"
    using upward_or_flat_schedule_is_constant [of 15 15 12] by (simp add: Math_round_def)
  have "generateGrowthRates 15 15 12 ! 0 \<in> set (generateGrowthRates 15 15 12)"
    and "generateGrowthRates 15 15 12 ! 11 \<in> set (generateGrowthRates 15 15 12)"
    using len by (simp_all only: nth_mem)
  with b have "rate (generateGrowthRates 15 15 12 ! 0) = 15"
    and "rate (generateGrowthRates 15 15 12 ! 11) = 15"
    by blast+
  then show ?thesis using a len by simp
qed

section \<open>The projection loop\<close>

lemma lookup_growthRate_total:
  "gs \<noteq> [] \<Longrightarrow> \<exists>g. lookup_growthRate gs y = Inr g"
  by (simp add: lookup_growthRate_def last_rate_def split: option.splits)

lemma proj_loop_done:
  "years inp \<le> i \<Longrightarrow> proj_loop inp i tb ti e b = Inr []"
  by (subst proj_loop.simps) simp

lemma proj_loop_step:
  assumes "i < years inp" and "lookup_growthRate (growthRates inp) (i + 1) = Inr g"
  shows "proj_loop inp i tb ti e b =
           (case proj_loop inp (i + 1) (tb + e) (ti + tb * (interestRate inp / 100))
                   (e * (1 + inflationRate inp / 100)) (b * (1 + g / 100)) of
              Inl err \<Rightarrow> Inl err
            | Inr rest \<Rightarrow>
                Inr (emit inp (i + 1) (tb + e) (ti + tb * (interestRate inp / 100)) e b g # rest))"
  by (subst proj_loop.simps) (simp only: assms Let_def if_True sum.case)

lemma proj_loop_throws:
  assumes "i < years inp" and "lookup_growthRate (growthRates inp) (i + 1) = Inl err"
  shows "proj_loop inp i tb ti e b = Inl err"
  using assms by (subst proj_loop.simps) (simp add: Let_def)

lemma proj_loop_total:
  "growthRates inp \<noteq> [] \<Longrightarrow> \<exists>xs. proj_loop inp i tb ti e b = Inr xs"
proof (induction inp i tb ti e b rule: proj_loop.induct)
  case (1 inp i tb ti e b)
  show ?case
  proof (cases "i < years inp")
    case True
    obtain g where g: "lookup_growthRate (growthRates inp) (i + 1) = Inr g"
      using lookup_growthRate_total [OF 1(2)] by blast
    from "1.IH" [OF True refl refl refl refl g] 1(2)
    obtain rest where "proj_loop inp (i + 1) (tb + e) (ti + tb * (interestRate inp / 100))
                   (e * (1 + inflationRate inp / 100)) (b * (1 + g / 100)) = Inr rest"
      by blast
    then show ?thesis by (simp add: proj_loop_step [OF True g])
  next
    case False
    then show ?thesis by (simp add: proj_loop_done)
  qed
qed

lemma proj_loop_length:
  "proj_loop inp i tb ti e b = Inr xs \<Longrightarrow> length xs = nat (years inp - i)"
proof (induction inp i tb ti e b arbitrary: xs rule: proj_loop.induct)
  case (1 inp i tb ti e b)
  show ?case
  proof (cases "i < years inp")
    case True
    show ?thesis
    proof (cases "lookup_growthRate (growthRates inp) (i + 1)")
      case (Inl err)
      with True 1(2) show ?thesis by (simp add: proj_loop_throws)
    next
      case (Inr g)
      from 1(2) obtain rest where
        rest: "proj_loop inp (i + 1) (tb + e) (ti + tb * (interestRate inp / 100))
                   (e * (1 + inflationRate inp / 100)) (b * (1 + g / 100)) = Inr rest"
        and xs: "xs = emit inp (i + 1) (tb + e) (ti + tb * (interestRate inp / 100)) e b g # rest"
        by (auto simp: proj_loop_step [OF True Inr] simp del: times_divide_eq_right
              split: sum.splits)
      from "1.IH" [OF True refl refl refl refl Inr rest]
      have "length rest = nat (years inp - (i + 1))" .
      with xs True show ?thesis by simp
    qed
  next
    case False
    with 1(2) show ?thesis by (simp add: proj_loop_done)
  qed
qed

lemma expenses_in_Suc:
  "expenses_in inp (Suc n) = expenses_in inp n * (1 + inflationRate inp / 100)"
  by (simp add: expenses_in_def)

lemma int_Suc_plus: "int (Suc n) = int n + 1"
  by simp

lemma proj_loop_nth:
  "proj_loop inp (int n) (borrowed_after inp n) (interest_after inp n)
      (expenses_in inp n) (price_after inp n) = Inr xs \<Longrightarrow>
   k < length xs \<Longrightarrow> xs ! k = snapshot inp (n + k)"
proof (induction k arbitrary: n xs)
  case 0
  then have lt: "int n < years inp"
    using proj_loop_done [of inp "int n"] by (cases "int n < years inp") auto
  show ?case
  proof (cases "lookup_growthRate (growthRates inp) (int n + 1)")
    case (Inl err)
    with lt 0(1) show ?thesis by (simp add: proj_loop_throws)
  next
    case (Inr g)
    then have "rate_used inp (int n + 1) = g" by (simp add: rate_used_def)
    with 0(1) show ?thesis
      by (auto simp: proj_loop_step [OF lt Inr] snapshot_def simp del: times_divide_eq_right
            split: sum.splits)
  qed
next
  case (Suc k)
  then have lt: "int n < years inp"
    using proj_loop_done [of inp "int n"] by (cases "int n < years inp") auto
  show ?case
  proof (cases "lookup_growthRate (growthRates inp) (int n + 1)")
    case (Inl err)
    with lt Suc(2) show ?thesis by (simp add: proj_loop_throws)
  next
    case (Inr g)
    then have g: "rate_used inp (int n + 1) = g" by (simp add: rate_used_def)
    from Suc(2) obtain rest where
      rest: "proj_loop inp (int n + 1) (borrowed_after inp n + expenses_in inp n)
                 (interest_after inp n + borrowed_after inp n * (interestRate inp / 100))
                 (expenses_in inp n * (1 + inflationRate inp / 100))
                 (price_after inp n * (1 + g / 100)) = Inr rest"
      and xs: "xs = emit inp (int n + 1) (borrowed_after inp n + expenses_in inp n)
                 (interest_after inp n + borrowed_after inp n * (interestRate inp / 100))
                 (expenses_in inp n) (price_after inp n) g # rest"
      by (auto simp: proj_loop_step [OF lt Inr] simp del: times_divide_eq_right
            split: sum.splits)
    have "proj_loop inp (int (Suc n)) (borrowed_after inp (Suc n)) (interest_after inp (Suc n))
            (expenses_in inp (Suc n)) (price_after inp (Suc n)) = Inr rest"
      using rest
      by (simp only: borrowed_after.simps interest_after.simps price_after.simps
            expenses_in_Suc int_Suc_plus g)
    moreover have "k < length rest" using Suc(3) xs by simp
    ultimately have "rest ! k = snapshot inp (Suc n + k)" by (rule Suc.IH)
    then show ?thesis using xs by simp
  qed
qed

lemma calculateProjections_nth:
  assumes "calculateProjections inp = Inr xs" and "k < length xs"
  shows "xs ! k = snapshot inp k"
  using proj_loop_nth [of inp 0 xs k] assms
  by (simp add: calculateProjections_def expenses_in_def)

lemma calculateProjections_length:
  "calculateProjections inp = Inr xs \<Longrightarrow> length xs = nat (years inp)"
  using proj_loop_length [of inp 0] by (simp add: calculateProjections_def)

lemma calculateProjections_total:
  "growthRates inp \<noteq> [] \<Longrightarrow> \<exists>xs. calculateProjections inp = Inr xs"
  unfolding calculateProjections_def by (rule proj_loop_total)

lemma snapshot_fields:
  "proj_year (snapshot inp n) = int n + 1"
  "growthRate (snapshot inp n) = rate_used inp (int n + 1)"
  "bitcoinPriceStart (snapshot inp n) = Math_round (price_after inp n)"
  "bitcoinPriceEnd (snapshot inp n) = Math_round (price_after inp (Suc n))"
  "portfolioValue (snapshot inp n) = Math_round (price_after inp (Suc n) * bitcoinAmount inp)"
  "totalBorrowed (snapshot inp n) = Math_round (borrowed_after inp (Suc n))"
  "totalInterest (snapshot inp n) = Math_round (interest_after inp (Suc n))"
  "totalDebt (snapshot inp n) = Math_round (borrowed_after inp (Suc n) + interest_after inp (Suc n))"
  "netWorth (snapshot inp n) =
     Math_round (price_after inp (Suc n) * bitcoinAmount inp
                 - (borrowed_after inp (Suc n) + interest_after inp (Suc n)))"
  "ltvRatio (snapshot inp n) =
     js_round (js_times (js_div (borrowed_after inp (Suc n) + interest_after inp (Suc n))
                                (price_after inp n * bitcoinAmount inp)) 100)"
  "proj_annualExpenses (snapshot inp n) = Math_round (expenses_in inp n)"
  by (simp_all add: snapshot_def emit_def Let_def)

text \<open>
  C2. For the snapshot of every year \<open>k + 1\<close> of a projection, the end-of-year price
  is the start-of-year price times \<open>1 + growthRate / 100\<close>; \<open>portfolioValue\<close> is the
  end-of-year price times \<open>bitcoinAmount\<close>, and \<open>ltvRatio\<close> is the total debt
  (borrowed plus interest) divided by the start-of-year price times \<open>bitcoinAmount\<close>,
  times 100: the denominator of the LTV is taken at the start-of-year price. The record
  holds each of these values as \<open>Math.round\<close> emits it.
\<close>

theorem portfolio_at_end_price_ltv_at_start_price:
  assumes "calculateProjections inp = Inr xs" and "k < length xs"
  shows "price_after inp (Suc k) = price_after inp k * (1 + growthRate (xs ! k) / 100)
       \<and> bitcoinPriceStart (xs ! k) = Math_round (price_after inp k)
       \<and> bitcoinPriceEnd (xs ! k) = Math_round (price_after inp (Suc k))
       \<and> portfolioValue (xs ! k) = Math_round (price_after inp (Suc k) * bitcoinAmount inp)
       \<and> ltvRatio (xs ! k) =
           js_round (js_times (js_div (borrowed_after inp (Suc k) + interest_after inp (Suc k))
                                      (price_after inp k * bitcoinAmount inp)) 100)
       \<and> (price_after inp k * bitcoinAmount inp \<noteq> 0 \<longrightarrow>
            ltvRatio (xs ! k) =
              Fin (Math_round ((borrowed_after inp (Suc k) + interest_after inp (Suc k))
                               / (price_after inp k * bitcoinAmount inp) * 100)))"
  using calculateProjections_nth [OF assms]
  by (simp add: snapshot_fields js_div_def)

lemma sample_schedule:
  "generateGrowthRates 60 15 3 = [\<lparr>year = 1, rate = 60\<rparr>, \<lparr>year = 2, rate = 55\<rparr>, \<lparr>year = 3, rate = 50\<rparr>]"
  by (simp add: generateGrowthRates_def gen_loop_upto upto_rec1 growth_entry_rate Math_round_def)

lemma sample_rates:
  "rate_used sample_inputs 1 = 60" "rate_used sample_inputs 2 = 55" "rate_used sample_inputs 3 = 50"
  by (simp_all add: rate_used_def sample_inputs_def sample_schedule lookup_growthRate_def)

lemma sample_run:
  "\<exists>xs. calculateProjections sample_inputs = Inr xs \<and> length xs = 3"
proof -
  have "growthRates sample_inputs \<noteq> []" by (simp add: sample_inputs_def sample_schedule)
  then obtain xs where xs: "calculateProjections sample_inputs = Inr xs"
    using calculateProjections_total by blast
  moreover have "length xs = 3" using calculateProjections_length [OF xs] by (simp add: sample_inputs_def)
  ultimately show ?thesis by blast
qed

lemma sample_fields [simp]:
  "bitcoinAmount sample_inputs = 3" "bitcoinPrice sample_inputs = 100000"
  "interestRate sample_inputs = 14" "inflationRate sample_inputs = 3"
  "annualExpenses sample_inputs = 150000" "years sample_inputs = 3" "maxLTV sample_inputs = 50"
  by (simp_all add: sample_inputs_def)

theorem portfolio_at_end_price_ltv_at_start_price_witness:
  "\<exists>xs. calculateProjections sample_inputs = Inr xs \<and> 1 < length xs
      \<and> bitcoinPriceStart (xs ! 1) = 160000
      \<and> bitcoinPriceEnd (xs ! 1) = 248000
      \<and> portfolioValue (xs ! 1) = 744000
      \<and> ltvRatio (xs ! 1) = Fin 68"
proof -
  obtain xs where xs: "calculateProjections sample_inputs = Inr xs" and len: "length xs = 3"
    using sample_run by blast
  have k: "1 < length xs" using len by simp
  have "bitcoinPriceStart (xs ! 1) = 160000 \<and> bitcoinPriceEnd (xs ! 1) = 248000
      \<and> portfolioValue (xs ! 1) = 744000 \<and> ltvRatio (xs ! 1) = Fin 68"
    using portfolio_at_end_price_ltv_at_start_price [OF xs k]
    by (simp add: sample_rates expenses_in_def Math_round_def js_div_def)
  with xs k show ?thesis by blast
qed

text \<open>
  C3. In every simulated year the interest is accrued on the balance borrowed before
  that year's expenses are added: the snapshot of year \<open>k + 1\<close> holds the interest of
  the years before plus \<open>interestRate / 100\<close> of the balance that the snapshot of year
  \<open>k\<close> reports as borrowed, and a borrowed balance that has grown by the year's
  expenses. So the first snapshot has \<open>totalInterest = 0\<close>, for every input.
\<close>

theorem interest_accrues_before_borrowing:
  assumes "calculateProjections inp = Inr xs" and "k < length xs"
  shows "totalInterest (xs ! k) =
           Math_round (interest_after inp k + borrowed_after inp k * (interestRate inp / 100))
       \<and> totalBorrowed (xs ! k) = Math_round (borrowed_after inp k + expenses_in inp k)
       \<and> (0 < k \<longrightarrow> totalBorrowed (xs ! (k - 1)) = Math_round (borrowed_after inp k)
                    \<and> totalInterest (xs ! (k - 1)) = Math_round (interest_after inp k))
       \<and> totalInterest (xs ! 0) = 0"
proof -
  have k: "xs ! k = snapshot inp k"
    using assms by (rule calculateProjections_nth)
  have "0 < length xs"
    using assms(2) by auto
  then have z: "xs ! 0 = snapshot inp 0"
    using assms(1) by (simp only: calculateProjections_nth)
  have now: "totalInterest (xs ! k) =
           Math_round (interest_after inp k + borrowed_after inp k * (interestRate inp / 100))
       \<and> totalBorrowed (xs ! k) = Math_round (borrowed_after inp k + expenses_in inp k)"
    by (simp only: k snapshot_fields borrowed_after.simps interest_after.simps)
  have before: "totalBorrowed (xs ! (k - 1)) = Math_round (borrowed_after inp k)
                    \<and> totalInterest (xs ! (k - 1)) = Math_round (interest_after inp k)"
    if "0 < k"
  proof -
    from that obtain j where j: "k = Suc j" by (cases k) simp_all
    then have "j < length xs" using assms(2) by simp
    then have "xs ! j = snapshot inp j"
      using assms(1) by (simp only: calculateProjections_nth)
    then show ?thesis by (simp add: j snapshot_fields del: borrowed_after.simps interest_after.simps)
  qed
  have first: "totalInterest (xs ! 0) = 0"
    by (simp add: z snapshot_fields)
  from now before first show ?thesis by blast
qed

theorem interest_accrues_before_borrowing_witness:
  "\<exists>xs. calculateProjections sample_inputs = Inr xs \<and> 1 < length xs
      \<and> totalBorrowed (xs ! 0) = 150000
      \<and> totalInterest (xs ! 0) = 0
      \<and> totalInterest (xs ! 1) = 21000
      \<and> totalBorrowed (xs ! 1) = 304500"
proof -
  obtain xs where xs: "calculateProjections sample_inputs = Inr xs" and len: "length xs = 3"
    using sample_run by blast
  have k: "1 < length xs" using len by simp
  have "totalBorrowed (xs ! 0) = 150000 \<and> totalInterest (xs ! 0) = 0
      \<and> totalInterest (xs ! 1) = 21000 \<and> totalBorrowed (xs ! 1) = 304500"
    using interest_accrues_before_borrowing [OF xs k]
    by (simp add: expenses_in_def Math_round_def)
  with xs k show ?thesis by blast
qed

lemma expenses_in_nonneg:
  "0 \<le> annualExpenses inp \<Longrightarrow> 0 \<le> inflationRate inp \<Longrightarrow> 0 \<le> expenses_in inp n"
  by (simp add: expenses_in_def)

lemma borrowed_after_nonneg:
  "0 \<le> annualExpenses inp \<Longrightarrow> 0 \<le> inflationRate inp \<Longrightarrow> 0 \<le> borrowed_after inp n"
  by (induction n) (simp_all add: expenses_in_nonneg)

text \<open>
  C5. With \<open>interestRate\<close>, \<open>inflationRate\<close> and \<open>annualExpenses\<close> all non-negative,
  the emitted \<open>totalBorrowed\<close> and \<open>totalInterest\<close> do not decrease from any
  snapshot to the next.
\<close>

theorem debt_never_shrinks:
  assumes "0 \<le> interestRate inp" and "0 \<le> inflationRate inp" and "0 \<le> annualExpenses inp"
    and "calculateProjections inp = Inr xs" and "Suc k < length xs"
  shows "totalBorrowed (xs ! k) \<le> totalBorrowed (xs ! Suc k)
       \<and> totalInterest (xs ! k) \<le> totalInterest (xs ! Suc k)"
proof -
  have k: "xs ! k = snapshot inp k"
    using assms(4,5) by (intro calculateProjections_nth) simp_all
  have s: "xs ! Suc k = snapshot inp (Suc k)"
    using assms(4,5) by (intro calculateProjections_nth) simp_all
  have "borrowed_after inp (Suc k) \<le> borrowed_after inp (Suc (Suc k))"
    using expenses_in_nonneg [OF assms(3,2), of "Suc k"] by simp
  moreover have "interest_after inp (Suc k) \<le> interest_after inp (Suc (Suc k))"
    using borrowed_after_nonneg [OF assms(3,2), of "Suc k"] assms(1) by simp
  ultimately show ?thesis
    by (simp only: k s snapshot_fields Math_round_mono)
qed

theorem debt_never_shrinks_witness:
  "(0::real) \<le> interestRate sample_inputs \<and> 0 \<le> inflationRate sample_inputs
     \<and> 0 \<le> annualExpenses sample_inputs
     \<and> (\<exists>xs. calculateProjections sample_inputs = Inr xs \<and> Suc 1 < length xs
           \<and> totalBorrowed (xs ! 1) \<le> totalBorrowed (xs ! Suc 1)
           \<and> totalInterest (xs ! 1) \<le> totalInterest (xs ! Suc 1))"
proof -
  obtain xs where xs: "calculateProjections sample_inputs = Inr xs" and len: "length xs = 3"
    using sample_run by blast
  have k: "Suc 1 < length xs" using len by simp
  have h: "0 \<le> interestRate sample_inputs" "0 \<le> inflationRate sample_inputs"
    "0 \<le> annualExpenses sample_inputs" by simp_all
  from debt_never_shrinks [OF h xs k] xs k h show ?thesis by blast
qed

section \<open>The schedules of the sample inputs\<close>



lemma collapse_schedule:
  "generateGrowthRates (- 100) (- 100) 2 =
     [\<lparr>year = 1, rate = - 100\<rparr>, \<lparr>year = 2, rate = - 100\<rparr>]"
  by (simp add: generateGrowthRates_def gen_loop_upto upto_rec1 growth_entry_rate Math_round_def)

lemmas run_simps = calculateProjections_def proj_loop.simps lookup_growthRate_def last_rate_def
  emit_def Let_def Math_round_def js_div_def


section \<open>The growth rate of a year\<close>

lemma lookup_growthRate_found:
  "find (\<lambda>g. year g = y) gs = Some g \<Longrightarrow> rate g \<noteq> 0 \<Longrightarrow> lookup_growthRate gs y = Inr (rate g)"
  by (simp add: lookup_growthRate_def)

lemma lookup_growthRate_missing:
  "find (\<lambda>g. year g = y) gs = None \<Longrightarrow> gs \<noteq> [] \<Longrightarrow>
   lookup_growthRate gs y = Inr (rate (last gs))"
  by (simp add: lookup_growthRate_def last_rate_def)

text \<open>
  C8 is what the lookup is meant to do, and the code misses it for a rate of zero. The
  schedule of \<open>zero_rate_inputs\<close> has the entry \<open>{year: 2, rate: 0}\<close>, but zero is falsy
  and the \<open>||\<close> falls through to the last entry: year 2, which does not exceed the
  schedule length, is projected with the growth rate \<open>-2\<close> of year 3, and the price at
  the end of year 2 is 99960 instead of 102000.
\<close>

theorem zero_rate_falls_back_to_last_entry:
  "growthRates zero_rate_inputs =
       [\<lparr>year = 1, rate = 2\<rparr>, \<lparr>year = 2, rate = 0\<rparr>, \<lparr>year = 3, rate = - 2\<rparr>]
   \<and> find (\<lambda>g. year g = 2) (growthRates zero_rate_inputs) = Some \<lparr>year = 2, rate = 0\<rparr>
   \<and> lookup_growthRate (growthRates zero_rate_inputs) 2 = Inr (- 2)
   \<and> calculateProjections zero_rate_inputs =
       Inr [\<lparr> proj_year = 1, growthRate = 2, bitcoinPriceStart = 100000,
              bitcoinPriceEnd = 102000, portfolioValue = 102000, totalBorrowed = 10000,
              totalInterest = 0, totalDebt = 10000, netWorth = 92000, ltvRatio = Fin 10,
              proj_annualExpenses = 10000 \<rparr>,
            \<lparr> proj_year = 2, growthRate = - 2, bitcoinPriceStart = 102000,
              bitcoinPriceEnd = 99960, portfolioValue = 99960, totalBorrowed = 20000,
              totalInterest = 0, totalDebt = 20000, netWorth = 79960, ltvRatio = Fin 20,
              proj_annualExpenses = 10000 \<rparr>,
            \<lparr> proj_year = 3, growthRate = - 2, bitcoinPriceStart = 99960,
              bitcoinPriceEnd = 97961, portfolioValue = 97961, totalBorrowed = 30000,
              totalInterest = 0, totalDebt = 30000, netWorth = 67961, ltvRatio = Fin 30,
              proj_annualExpenses = 10000 \<rparr>]"
proof -
  have sched: "generateGrowthRates 2 (- 16) 3 =
       [\<lparr>year = 1, rate = 2\<rparr>, \<lparr>year = 2, rate = 0\<rparr>, \<lparr>year = 3, rate = - 2\<rparr>]"
    by (simp add: generateGrowthRates_def gen_loop_upto upto_rec1 growth_entry_rate Math_round_def)
  show ?thesis
    by (simp add: zero_rate_inputs_def sched run_simps)
qed
section \<open>Rounding to the nearest double\<close>

lemma pow2_less_iff: "(2::real) powi m < 2 powi n \<longleftrightarrow> m < n"
proof
  assume "(2::real) powi m < 2 powi n"
  show "m < n"
  proof (rule ccontr)
    assume "\<not> m < n"
    then have "(2::real) powi n \<le> 2 powi m"
      by (intro power_int_increasing) simp_all
    with \<open>(2::real) powi m < 2 powi n\<close> show False by simp
  qed
next
  assume "m < n"
  then show "(2::real) powi m < 2 powi n"
    by (intro power_int_strict_increasing) simp_all
qed

lemma pow2_le_iff: "(2::real) powi m \<le> 2 powi n \<longleftrightarrow> m \<le> n"
  using pow2_less_iff [of n m] by (auto simp: not_less [symmetric])

lemma expo_bounds:
  "x \<noteq> 0 \<Longrightarrow> 2 powi expo x \<le> \<bar>x\<bar> \<and> \<bar>x\<bar> < 2 powi (expo x + 1)"
proof (induction x rule: expo.induct)
  case (1 x)
  show ?case
  proof (cases "2 \<le> \<bar>x\<bar>")
    case True
    with 1 have ih: "2 powi expo (x / 2) \<le> \<bar>x / 2\<bar> \<and> \<bar>x / 2\<bar> < 2 powi (expo (x / 2) + 1)"
      by simp
    have e: "expo x = expo (x / 2) + 1"
      using True 1(3) by (subst expo.simps) simp
    show ?thesis
      using ih unfolding e by (simp add: power_int_add field_simps)
  next
    case False
    show ?thesis
    proof (cases "\<bar>x\<bar> < 1")
      case lt: True
      with 1 False have ih: "2 powi expo (x * 2) \<le> \<bar>x * 2\<bar> \<and> \<bar>x * 2\<bar> < 2 powi (expo (x * 2) + 1)"
        by simp
      have e: "expo x = expo (x * 2) - 1"
        using False lt 1(3) by (subst expo.simps) simp
      show ?thesis
        using ih unfolding e by (simp add: power_int_diff power_int_add field_simps abs_mult)
    next
      case ge: False
      have e: "expo x = 0"
        using False ge 1(3) by (subst expo.simps) simp
      show ?thesis
        using False ge unfolding e by simp
    qed
  qed
qed

lemma expo_unique:
  assumes "2 powi e \<le> \<bar>x\<bar>" and "\<bar>x\<bar> < 2 powi (e + 1)"
  shows "expo x = e"
proof -
  have "0 < (2::real) powi e" by simp
  with assms(1) have "0 < \<bar>x\<bar>" by linarith
  then have nz: "x \<noteq> 0" by simp
  from expo_bounds [OF nz] have b: "2 powi expo x \<le> \<bar>x\<bar>" "\<bar>x\<bar> < 2 powi (expo x + 1)"
    by simp_all
  have "(2::real) powi e < 2 powi (expo x + 1)" using assms(1) b(2) by linarith
  then have "e < expo x + 1" by (simp only: pow2_less_iff)
  moreover have "(2::real) powi expo x < 2 powi (e + 1)" using assms(2) b(1) by linarith
  then have "expo x < e + 1" by (simp only: pow2_less_iff)
  ultimately show ?thesis by simp
qed

lemma expo_0 [simp]: "expo 0 = 0"
  by (subst expo.simps) simp

lemma expo_minus [simp]: "expo (- x) = expo x"
proof (cases "x = 0")
  case True
  then show ?thesis by simp
next
  case False
  from expo_bounds [OF False] show ?thesis
    by (intro expo_unique) simp_all
qed

lemma expo_mono:
  assumes "x \<noteq> 0" and "\<bar>x\<bar> \<le> \<bar>y\<bar>"
  shows "expo x \<le> expo y"
proof -
  have y: "y \<noteq> 0" using assms by auto
  have "(2::real) powi expo x \<le> \<bar>x\<bar>" using expo_bounds [OF assms(1)] by simp
  also have "\<dots> \<le> \<bar>y\<bar>" by (rule assms(2))
  also have "\<dots> < 2 powi (expo y + 1)" using expo_bounds [OF y] by simp
  finally have "expo x < expo y + 1" by (simp only: pow2_less_iff)
  then show ?thesis by simp
qed

lemma rne_error: "\<bar>of_int (rne y) - y\<bar> \<le> 1 / 2"
  unfolding rne_def Let_def by (auto; linarith)

lemma rne_of_int [simp]: "rne (of_int n) = n"
  by (simp add: rne_def)

lemma rne_mono:
  assumes "y \<le> z"
  shows "rne y \<le> rne z"
proof (cases "\<lfloor>y\<rfloor> = \<lfloor>z\<rfloor>")
  case True
  then show ?thesis
    using assms unfolding rne_def Let_def by (auto; linarith)
next
  case False
  then have lt: "\<lfloor>y\<rfloor> < \<lfloor>z\<rfloor>"
    using floor_mono [OF assms] by linarith
  have "rne y \<le> \<lfloor>y\<rfloor> + 1"
    unfolding rne_def Let_def by auto
  moreover have "\<lfloor>z\<rfloor> \<le> rne z"
    unfolding rne_def Let_def by auto
  ultimately show ?thesis using lt by linarith
qed

lemma rne_minus: "rne (- y) = - rne y"
proof (cases "y = of_int \<lfloor>y\<rfloor>")
  case True
  then obtain n where "y = of_int n" by blast
  then show ?thesis
    using rne_of_int [of "- n"] by simp
next
  case False
  then have fl: "\<lfloor>- y\<rfloor> = - \<lfloor>y\<rfloor> - 1"
    by (simp add: floor_minus ceiling_altdef)
  have frac: "y - of_int \<lfloor>y\<rfloor> > 0" using False by linarith
  show ?thesis
    unfolding rne_def Let_def fl using frac
    by (auto simp: algebra_simps; linarith?)
qed

lemma rne_0 [simp]: "rne 0 = 0"
  using rne_of_int [of 0] by simp


lemma fl_0 [simp]: "fl 0 = 0"
  by (simp add: fl_def)

lemma qexp_minus [simp]: "qexp (- x) = qexp x"
  by (simp add: qexp_def)

lemma fl_minus: "fl (- x) = - fl x"
  by (simp add: fl_def rne_minus)

lemma fl_nonneg: "0 \<le> x \<Longrightarrow> 0 \<le> fl x"
proof -
  assume "0 \<le> x"
  then have "rne 0 \<le> rne (x / 2 powi qexp x)"
    by (intro rne_mono) simp
  then show ?thesis
    using rne_of_int [of 0] by (simp add: fl_def)
qed

lemma fl_abs_error: "\<bar>fl x - x\<bar> \<le> 2 powi qexp x / 2"
proof -
  let ?q = "(2::real) powi qexp x"
  have q: "0 < ?q" by simp
  have "fl x - x = (of_int (rne (x / ?q)) - x / ?q) * ?q"
    using q by (simp add: fl_def left_diff_distrib)
  then have "\<bar>fl x - x\<bar> = \<bar>of_int (rne (x / ?q)) - x / ?q\<bar> * ?q"
    using q by (simp only: abs_mult abs_of_pos)
  also have "\<dots> \<le> 1 / 2 * ?q"
    using q rne_error [of "x / ?q"] by (intro mult_right_mono) simp_all
  finally show ?thesis by simp
qed

lemma fl_eval:
  assumes "2 powi e \<le> \<bar>x\<bar>" and "\<bar>x\<bar> < 2 powi (e + 1)"
  shows "fl x = of_int (rne (x / 2 powi (max e (- 1022) - 52))) * 2 powi (max e (- 1022) - 52)"
  using expo_unique [OF assms] by (simp add: fl_def qexp_def)

lemma fl_repr:
  assumes "\<bar>m\<bar> < 2 ^ 53" and "- 1074 \<le> j"
  shows "fl (of_int m * 2 powi j) = of_int m * 2 powi j"
proof (cases "m = 0")
  case True
  then show ?thesis by simp
next
  case False
  let ?x = "of_int m * (2::real) powi j"
  have nz: "?x \<noteq> 0" using False by simp
  have "(2::real) powi expo ?x \<le> \<bar>?x\<bar>"
    using expo_bounds [OF nz] by simp
  also have "\<bar>?x\<bar> = of_int \<bar>m\<bar> * 2 powi j"
    by (simp add: abs_mult)
  also have "\<dots> < 2 ^ 53 * 2 powi j"
  proof -
    have "(of_int \<bar>m\<bar> :: real) < of_int (2 ^ 53)"
      using assms(1) by (simp only: of_int_less_iff)
    then show ?thesis by (intro mult_strict_right_mono) simp_all
  qed
  also have "\<dots> = 2 powi (53 + j)"
    by (simp add: power_int_add)
  finally have "expo ?x < 53 + j" by (simp only: pow2_less_iff)
  then have le: "qexp ?x \<le> j"
    using assms(2) by (simp add: qexp_def)
  define d where "d = nat (j - qexp ?x)"
  have j: "j = qexp ?x + int d" using le by (simp add: d_def)
  have "?x / 2 powi qexp ?x = of_int m * 2 powi (int d)"
    by (subst (1) j) (simp add: power_int_add)
  also have "\<dots> = of_int (m * 2 ^ d)"
    by simp
  finally have "rne (?x / 2 powi qexp ?x) = m * 2 ^ d"
    by (simp only: rne_of_int)
  then have "fl ?x = of_int (m * 2 ^ d) * 2 powi qexp ?x"
    by (simp only: fl_def)
  also have "\<dots> = of_int m * 2 powi (qexp ?x + int d)"
    by (simp add: power_int_add)
  finally show ?thesis by (simp only: j [symmetric])
qed

lemma fl_of_int:
  "\<bar>m\<bar> < 2 ^ 53 \<Longrightarrow> fl (of_int m) = of_int m"
  using fl_repr [of m 0] by simp

lemma fl_lower:
  assumes "0 < y" and "- 1022 \<le> expo y"
  shows "2 powi expo y \<le> fl y"
proof -
  have q: "qexp y = expo y - 52" using assms(2) by (simp add: qexp_def)
  have "2 powi expo y \<le> y" using expo_bounds [of y] assms(1) by simp
  then have "2 powi expo y / 2 powi qexp y \<le> y / 2 powi qexp y"
    by (intro divide_right_mono) simp_all
  moreover have "(2::real) powi expo y / 2 powi qexp y = of_int (2 ^ 52)"
    unfolding q by (simp add: power_int_diff)
  ultimately have "rne (of_int (2 ^ 52)) \<le> rne (y / 2 powi qexp y)"
    by (intro rne_mono) simp
  then have "(of_int (2 ^ 52) :: real) \<le> of_int (rne (y / 2 powi qexp y))"
    by (simp only: rne_of_int of_int_le_iff)
  then have "of_int (2 ^ 52) * 2 powi qexp y \<le> fl y"
    unfolding fl_def by (intro mult_right_mono) simp_all
  moreover have "of_int (2 ^ 52) * (2::real) powi qexp y = 2 powi expo y"
    unfolding q by (simp add: power_int_diff)
  ultimately show ?thesis by simp
qed

lemma fl_upper:
  assumes "0 < x"
  shows "fl x \<le> 2 powi (max (expo x) (- 1023) + 1)"
proof -
  have up: "x < 2 powi (expo x + 1)" using expo_bounds [of x] assms by simp
  show ?thesis
  proof (cases "- 1022 \<le> expo x")
    case True
    then have q: "qexp x = expo x - 52" by (simp add: qexp_def)
    have "x / 2 powi qexp x \<le> 2 powi (expo x + 1) / 2 powi qexp x"
      using up by (intro divide_right_mono) simp_all
    moreover have "(2::real) powi (expo x + 1) / 2 powi qexp x = of_int (2 ^ 53)"
      unfolding q by (simp add: power_int_diff power_int_add)
    ultimately have "rne (x / 2 powi qexp x) \<le> rne (of_int (2 ^ 53))"
      by (intro rne_mono) simp
    then have "(of_int (rne (x / 2 powi qexp x)) :: real) \<le> of_int (2 ^ 53)"
      by (simp only: rne_of_int of_int_le_iff)
    then have "fl x \<le> of_int (2 ^ 53) * 2 powi qexp x"
      unfolding fl_def by (intro mult_right_mono) simp_all
    moreover have "of_int (2 ^ 53) * (2::real) powi qexp x = 2 powi (expo x + 1)"
      unfolding q by (simp add: power_int_diff power_int_add)
    ultimately show ?thesis using True by (simp add: max_def)
  next
    case False
    then have q: "qexp x = - 1074" by (simp add: qexp_def)
    have "expo x + 1 \<le> - 1022" using False by simp
    then have "(2::real) powi (expo x + 1) \<le> 2 powi (- 1022)"
      by (simp only: pow2_le_iff)
    with up have "x \<le> 2 powi (- 1022)" by linarith
    then have "x / 2 powi qexp x \<le> 2 powi (- 1022) / 2 powi qexp x"
      by (intro divide_right_mono) simp_all
    moreover have "(2::real) powi (- 1022) / 2 powi qexp x = of_int (2 ^ 52)"
      unfolding q by (simp add: power_int_diff [symmetric])
    ultimately have "rne (x / 2 powi qexp x) \<le> rne (of_int (2 ^ 52))"
      by (intro rne_mono) simp
    then have "(of_int (rne (x / 2 powi qexp x)) :: real) \<le> of_int (2 ^ 52)"
      by (simp only: rne_of_int of_int_le_iff)
    then have "fl x \<le> of_int (2 ^ 52) * 2 powi qexp x"
      unfolding fl_def by (intro mult_right_mono) simp_all
    moreover have "of_int (2 ^ 52) * (2::real) powi qexp x = 2 powi (- 1023 + 1)"
      unfolding q by (simp add: power_int_diff [symmetric])
    ultimately show ?thesis using False by (simp add: max_def)
  qed
qed

lemma fl_mono_pos:
  assumes "0 < x" and "x \<le> y"
  shows "fl x \<le> fl y"
proof (cases "qexp x = qexp y")
  case True
  have "x / 2 powi qexp y \<le> y / 2 powi qexp y"
    using assms(2) by (intro divide_right_mono) simp_all
  then have "rne (x / 2 powi qexp y) \<le> rne (y / 2 powi qexp y)"
    by (rule rne_mono)
  then have "(of_int (rne (x / 2 powi qexp y)) :: real) \<le> of_int (rne (y / 2 powi qexp y))"
    by (simp only: of_int_le_iff)
  then show ?thesis
    unfolding fl_def True by (intro mult_right_mono) simp_all
next
  case False
  have y: "0 < y" using assms by linarith
  have "expo x \<le> expo y"
    using assms by (intro expo_mono) simp_all
  with False have e: "max (expo x) (- 1023) + 1 \<le> expo y" and n: "- 1022 \<le> expo y"
    by (auto simp: qexp_def max_def split: if_splits)
  have "fl x \<le> 2 powi (max (expo x) (- 1023) + 1)"
    using assms(1) by (rule fl_upper)
  also have "\<dots> \<le> 2 powi expo y"
    using e by (simp only: pow2_le_iff)
  also have "\<dots> \<le> fl y"
    using y n by (rule fl_lower)
  finally show ?thesis .
qed

lemma fl_mono:
  assumes "x \<le> y"
  shows "fl x \<le> fl y"
proof -
  consider "0 < x" | "x \<le> 0" "0 \<le> y" | "y < 0" by linarith
  then show ?thesis
  proof cases
    case 1
    then show ?thesis using assms by (rule fl_mono_pos)
  next
    case 2
    have "fl x \<le> 0" using fl_nonneg [of "- x"] 2(1) by (simp add: fl_minus)
    also have "0 \<le> fl y" using 2(2) by (rule fl_nonneg)
    finally show ?thesis .
  next
    case 3
    then have "fl (- y) \<le> fl (- x)"
      using assms by (intro fl_mono_pos) simp_all
    then show ?thesis by (simp add: fl_minus)
  qed
qed


lemma fl_quarter:
  assumes "\<bar>x\<bar> < 2 ^ 52"
  shows "\<bar>fl x - x\<bar> \<le> 1 / 4"
proof (cases "x = 0")
  case True
  then show ?thesis by simp
next
  case False
  have "2 powi expo x \<le> \<bar>x\<bar>" using expo_bounds [OF False] by simp
  also have "\<bar>x\<bar> < 2 powi 52" using assms by simp
  finally have "expo x < 52" by (simp only: pow2_less_iff)
  then have "qexp x \<le> - 1"
    by (simp add: qexp_def)
  then have "(2::real) powi qexp x \<le> 2 powi (- 1)"
    by (simp only: pow2_le_iff)
  then have "(2::real) powi qexp x / 2 \<le> 1 / 4" by simp
  with fl_abs_error [of x] show ?thesis by linarith
qed

lemma fl_numeral:
  "numeral k < (2::int) ^ 53 \<Longrightarrow> fl (numeral k) = numeral k"
  using fl_of_int [of "numeral k"] by simp

lemma fl_1 [simp]: "fl 1 = 1"
  using fl_of_int [of 1] by simp


lemma fl_pow52: "fl 4503599627370496 = 4503599627370496"
  using fl_repr [of 1 52] by simp

lemma fl_large:
  assumes "2 ^ 52 \<le> \<bar>x\<bar>"
  shows "2 ^ 52 \<le> \<bar>fl x\<bar>"
proof (cases "0 \<le> x")
  case True
  then have "fl 4503599627370496 \<le> fl x" using assms by (intro fl_mono) simp
  then show ?thesis by (simp add: fl_pow52)
next
  case False
  then have "fl 4503599627370496 \<le> fl (- x)" using assms by (intro fl_mono) simp
  then show ?thesis by (simp add: fl_pow52 fl_minus)
qed

section \<open>The projection in binary64\<close>

lemma proj_loop64_done:
  "years inp \<le> i \<Longrightarrow> proj_loop64 inp i tb ti e b = Inr []"
  by (subst proj_loop64.simps) simp

lemma proj_loop64_step:
  assumes "i < years inp" and "lookup_growthRate (growthRates inp) (i + 1) = Inr g"
  shows "proj_loop64 inp i tb ti e b =
           (case proj_loop64 inp (i + 1) (fl (tb + e))
                   (fl (ti + fl (tb * fl (interestRate inp / 100))))
                   (fl (e * fl (1 + fl (inflationRate inp / 100))))
                   (fl (b * fl (1 + fl (g / 100)))) of
              Inl err \<Rightarrow> Inl err
            | Inr rest \<Rightarrow>
                Inr (emit64 inp (i + 1) (fl (tb + e))
                       (fl (ti + fl (tb * fl (interestRate inp / 100)))) e b g # rest))"
  by (subst proj_loop64.simps) (simp only: assms Let_def if_True sum.case)

lemma proj_loop64_throws:
  assumes "i < years inp" and "lookup_growthRate (growthRates inp) (i + 1) = Inl err"
  shows "proj_loop64 inp i tb ti e b = Inl err"
  using assms by (subst proj_loop64.simps) (simp add: Let_def)

lemma proj_loop64_total:
  "growthRates inp \<noteq> [] \<Longrightarrow> \<exists>xs. proj_loop64 inp i tb ti e b = Inr xs"
proof (induction inp i tb ti e b rule: proj_loop64.induct)
  case (1 inp i tb ti e b)
  show ?case
  proof (cases "i < years inp")
    case True
    obtain g where g: "lookup_growthRate (growthRates inp) (i + 1) = Inr g"
      using lookup_growthRate_total [OF 1(2)] by blast
    from "1.IH" [OF True refl refl refl refl g] 1(2)
    obtain rest where "proj_loop64 inp (i + 1) (fl (tb + e))
                   (fl (ti + fl (tb * fl (interestRate inp / 100))))
                   (fl (e * fl (1 + fl (inflationRate inp / 100))))
                   (fl (b * fl (1 + fl (g / 100)))) = Inr rest"
      by blast
    then show ?thesis by (simp add: proj_loop64_step [OF True g])
  next
    case False
    then show ?thesis by (simp add: proj_loop64_done)
  qed
qed

lemma proj_loop64_length:
  "proj_loop64 inp i tb ti e b = Inr xs \<Longrightarrow> length xs = nat (years inp - i)"
proof (induction inp i tb ti e b arbitrary: xs rule: proj_loop64.induct)
  case (1 inp i tb ti e b)
  show ?case
  proof (cases "i < years inp")
    case True
    show ?thesis
    proof (cases "lookup_growthRate (growthRates inp) (i + 1)")
      case (Inl err)
      with True 1(2) show ?thesis by (simp add: proj_loop64_throws)
    next
      case (Inr g)
      from 1(2) obtain rest where
        rest: "proj_loop64 inp (i + 1) (fl (tb + e))
                   (fl (ti + fl (tb * fl (interestRate inp / 100))))
                   (fl (e * fl (1 + fl (inflationRate inp / 100))))
                   (fl (b * fl (1 + fl (g / 100)))) = Inr rest"
        and xs: "xs = emit64 inp (i + 1) (fl (tb + e))
                   (fl (ti + fl (tb * fl (interestRate inp / 100)))) e b g # rest"
        by (auto simp: proj_loop64_step [OF True Inr] simp del: times_divide_eq_right
              split: sum.splits)
      from "1.IH" [OF True refl refl refl refl Inr rest]
      have "length rest = nat (years inp - (i + 1))" .
      with xs True show ?thesis by simp
    qed
  next
    case False
    with 1(2) show ?thesis by (simp add: proj_loop64_done)
  qed
qed

lemma calculateProjections64_length:
  "calculateProjections64 inp = Inr xs \<Longrightarrow> length xs = nat (years inp)"
  using proj_loop64_length [of inp 0] by (simp add: calculateProjections64_def)

lemma calculateProjections64_total:
  "growthRates inp \<noteq> [] \<Longrightarrow> \<exists>xs. calculateProjections64 inp = Inr xs"
  unfolding calculateProjections64_def by (rule proj_loop64_total)

lemma calculateProjections64_no_years:
  "years inp \<le> 0 \<Longrightarrow> calculateProjections64 inp = Inr []"
  by (simp add: calculateProjections64_def proj_loop64_done)

lemma proj_loop64_elements:
  "proj_loop64 inp i tb ti e b = Inr xs \<Longrightarrow> p \<in> set xs \<Longrightarrow>
   \<exists>y tb' ti' e' b' g. p = emit64 inp y tb' ti' e' b' g"
proof (induction inp i tb ti e b arbitrary: xs rule: proj_loop64.induct)
  case (1 inp i tb ti e b)
  show ?case
  proof (cases "i < years inp")
    case True
    show ?thesis
    proof (cases "lookup_growthRate (growthRates inp) (i + 1)")
      case (Inl err)
      with True 1(2) show ?thesis by (simp add: proj_loop64_throws)
    next
      case (Inr g)
      from 1(2) obtain rest where
        rest: "proj_loop64 inp (i + 1) (fl (tb + e))
                   (fl (ti + fl (tb * fl (interestRate inp / 100))))
                   (fl (e * fl (1 + fl (inflationRate inp / 100))))
                   (fl (b * fl (1 + fl (g / 100)))) = Inr rest"
        and xs: "xs = emit64 inp (i + 1) (fl (tb + e))
                   (fl (ti + fl (tb * fl (interestRate inp / 100)))) e b g # rest"
        by (auto simp: proj_loop64_step [OF True Inr] simp del: times_divide_eq_right
              split: sum.splits)
      from 1(3) xs consider "p = emit64 inp (i + 1) (fl (tb + e))
                   (fl (ti + fl (tb * fl (interestRate inp / 100)))) e b g" | "p \<in> set rest"
        by auto
      then show ?thesis
      proof cases
        case 1
        then show ?thesis by blast
      next
        case 2
        from "1.IH" [OF True refl refl refl refl Inr rest 2] show ?thesis .
      qed
    qed
  next
    case False
    with 1(2,3) show ?thesis by (simp add: proj_loop64_done)
  qed
qed

lemma one_year_run:
  assumes "years inp = 1" and "growthRates inp = [\<lparr>year = 1, rate = 100\<rparr>]"
  shows "calculateProjections64 inp =
     Inr [emit64 inp 1 (fl (0 + annualExpenses inp)) (fl (0 + fl (0 * fl (interestRate inp / 100))))
            (annualExpenses inp) (bitcoinPrice inp) 100]"
proof -
  have y: "0 < years inp" using assms(1) by simp
  have g: "lookup_growthRate (growthRates inp) (0 + 1) = Inr 100"
    by (simp add: assms(2) lookup_growthRate_def)
  have d: "proj_loop64 inp 1 tb ti e' b = Inr []" for tb ti e' b
    by (rule proj_loop64_done) (simp add: assms(1))
  show ?thesis
    unfolding calculateProjections64_def
    by (subst proj_loop64_step [OF y g]) (simp add: d)
qed

subsection \<open>The accounting identities\<close>

lemma fl_pow60: "fl 1152921504606846976 = 1152921504606846976"
  using fl_repr [of 1 60] by simp

lemma fl_pow61: "fl 2305843009213693952 = 2305843009213693952"
  using fl_repr [of 1 61] by simp

lemma fl_pow61_less_101: "fl 2305843009213693851 = 2305843009213693952"
  by (subst fl_eval [where e = 60]) (simp_all add: rne_def)

lemma fl_101_over_pow60: "fl (101 / 1152921504606846976) = 101 / 1152921504606846976"
  using fl_repr [of 101 "- 60"] by (simp add: power_int_minus_divide)

lemma fl_10100_over_pow60: "fl (2525 / 288230376151711744) = 2525 / 288230376151711744"
  using fl_repr [of 2525 "- 58"] by (simp add: power_int_minus_divide)

text \<open>
  C4 does not hold of every projection. Above \<open>2 ^ 53\<close> neighbouring doubles are more
  than one unit apart. With one bitcoin at \<open>2 ^ 60\<close>, a growth rate of 100 percent and
  expenses of 101 (\<open>huge_inputs\<close>), the portfolio is worth \<open>2 ^ 61\<close> at the end of year 1
  and the debt is 101; \<open>2 ^ 61 - 101\<close> is not a double, and the subtraction returns
  \<open>2 ^ 61\<close>. The emitted \<open>netWorth\<close> equals \<open>portfolioValue\<close>, and differs from
  \<open>portfolioValue - totalDebt\<close> by 101.
\<close>

theorem accounting_identity_breaks_counterexample:
  "calculateProjections64 huge_inputs =
     Inr [\<lparr> proj_year = 1, growthRate = 100, bitcoinPriceStart = 1152921504606846976,
            bitcoinPriceEnd = 2305843009213693952, portfolioValue = 2305843009213693952,
            totalBorrowed = 101, totalInterest = 0, totalDebt = 101,
            netWorth = 2305843009213693952, ltvRatio = Fin 0, proj_annualExpenses = 101 \<rparr>]
   \<and> \<bar>netWorth (hd (projr (calculateProjections64 huge_inputs)))
        - (portfolioValue (hd (projr (calculateProjections64 huge_inputs)))
            - totalDebt (hd (projr (calculateProjections64 huge_inputs))))\<bar> = 101"
proof -
  have f: "years huge_inputs = 1" "growthRates huge_inputs = [\<lparr>year = 1, rate = 100\<rparr>]"
    "annualExpenses huge_inputs = 101" "interestRate huge_inputs = 0"
    "bitcoinPrice huge_inputs = 1152921504606846976" "bitcoinAmount huge_inputs = 1"
    by (simp_all add: huge_inputs_def)
  have run: "calculateProjections64 huge_inputs =
     Inr [\<lparr> proj_year = 1, growthRate = 100, bitcoinPriceStart = 1152921504606846976,
            bitcoinPriceEnd = 2305843009213693952, portfolioValue = 2305843009213693952,
            totalBorrowed = 101, totalInterest = 0, totalDebt = 101,
            netWorth = 2305843009213693952, ltvRatio = Fin 0, proj_annualExpenses = 101 \<rparr>]"
    unfolding one_year_run [OF f(1,2)]
    by (simp add: f emit64_def Let_def div64_def fl_numeral fl_pow60 fl_pow61 fl_pow61_less_101
        fl_101_over_pow60 fl_10100_over_pow60 Math_round_def)
  show ?thesis
    unfolding run by simp
qed

lemma round_add_err:
  assumes "\<bar>d\<bar> \<le> 1 / 4"
  shows "\<bar>Math_round (a + b + d) - (Math_round a + Math_round b)\<bar> \<le> 1"
proof -
  have "\<bar>\<lfloor>a + b + d + 1 / 2\<rfloor> - (\<lfloor>a + 1 / 2\<rfloor> + \<lfloor>b + 1 / 2\<rfloor>)\<bar> \<le> 1"
    using assms by linarith
  then have "\<bar>(of_int (\<lfloor>a + b + d + 1 / 2\<rfloor> - (\<lfloor>a + 1 / 2\<rfloor> + \<lfloor>b + 1 / 2\<rfloor>)) :: real)\<bar> \<le> 1"
    by (simp only: of_int_abs [symmetric] of_int_le_1_iff)
  then show ?thesis by (simp add: Math_round_def)
qed

lemma round_sub_err:
  assumes "\<bar>d\<bar> \<le> 1 / 4"
  shows "\<bar>Math_round (a - b + d) - (Math_round a - Math_round b)\<bar> \<le> 1"
proof -
  have "\<bar>\<lfloor>a - b + d + 1 / 2\<rfloor> - (\<lfloor>a + 1 / 2\<rfloor> - \<lfloor>b + 1 / 2\<rfloor>)\<bar> \<le> 1"
    using assms by linarith
  then have "\<bar>(of_int (\<lfloor>a - b + d + 1 / 2\<rfloor> - (\<lfloor>a + 1 / 2\<rfloor> - \<lfloor>b + 1 / 2\<rfloor>)) :: real)\<bar> \<le> 1"
    by (simp only: of_int_abs [symmetric] of_int_le_1_iff)
  then show ?thesis by (simp add: Math_round_def)
qed

lemma Math_round_abs:
  "\<bar>Math_round x\<bar> \<le> c \<Longrightarrow> \<bar>x\<bar> \<le> c + 1 / 2"
  using Math_round_upper [of x] Math_round_lower [of x] by linarith

lemma emit64_identities:
  assumes "\<bar>portfolioValue (emit64 inp y tb ti e b g)\<bar> \<le> 2 ^ 50"
    and "\<bar>totalDebt (emit64 inp y tb ti e b g)\<bar> \<le> 2 ^ 50"
  shows "\<bar>totalDebt (emit64 inp y tb ti e b g)
           - (totalBorrowed (emit64 inp y tb ti e b g) + totalInterest (emit64 inp y tb ti e b g))\<bar> \<le> 1"
    and "\<bar>netWorth (emit64 inp y tb ti e b g)
           - (portfolioValue (emit64 inp y tb ti e b g) - totalDebt (emit64 inp y tb ti e b g))\<bar> \<le> 1"
proof -
  define pv where "pv = fl (fl (b * fl (1 + fl (g / 100))) * bitcoinAmount inp)"
  define td where "td = fl (tb + ti)"
  have f: "portfolioValue (emit64 inp y tb ti e b g) = Math_round pv"
    "totalDebt (emit64 inp y tb ti e b g) = Math_round td"
    "totalBorrowed (emit64 inp y tb ti e b g) = Math_round tb"
    "totalInterest (emit64 inp y tb ti e b g) = Math_round ti"
    "netWorth (emit64 inp y tb ti e b g) = Math_round (fl (pv - td))"
    by (simp_all add: emit64_def Let_def pv_def td_def)
  have pv: "\<bar>pv\<bar> \<le> 2 ^ 50 + 1 / 2"
    using assms(1) unfolding f by (rule Math_round_abs)
  have td: "\<bar>td\<bar> \<le> 2 ^ 50 + 1 / 2"
    using assms(2) unfolding f by (rule Math_round_abs)
  have "\<bar>tb + ti\<bar> < 2 ^ 52"
  proof (rule ccontr)
    assume "\<not> \<bar>tb + ti\<bar> < 2 ^ 52"
    then have "2 ^ 52 \<le> \<bar>fl (tb + ti)\<bar>" by (intro fl_large) simp
    with td show False unfolding td_def by simp
  qed
  then have "\<bar>fl (tb + ti) - (tb + ti)\<bar> \<le> 1 / 4" by (rule fl_quarter)
  then have "\<bar>Math_round (tb + ti + (fl (tb + ti) - (tb + ti))) - (Math_round tb + Math_round ti)\<bar> \<le> 1"
    by (rule round_add_err)
  then show "\<bar>totalDebt (emit64 inp y tb ti e b g)
           - (totalBorrowed (emit64 inp y tb ti e b g) + totalInterest (emit64 inp y tb ti e b g))\<bar> \<le> 1"
    unfolding f td_def by simp
  have "\<bar>pv - td\<bar> < 2 ^ 52" using pv td by simp
  then have "\<bar>fl (pv - td) - (pv - td)\<bar> \<le> 1 / 4" by (rule fl_quarter)
  then have "\<bar>Math_round (pv - td + (fl (pv - td) - (pv - td))) - (Math_round pv - Math_round td)\<bar> \<le> 1"
    by (rule round_sub_err)
  then show "\<bar>netWorth (emit64 inp y tb ti e b g)
           - (portfolioValue (emit64 inp y tb ti e b g) - totalDebt (emit64 inp y tb ti e b g))\<bar> \<le> 1"
    unfolding f by simp
qed

text \<open>
  C4, for the amounts that doubles resolve. In every snapshot of every projection whose
  emitted \<open>portfolioValue\<close> and \<open>totalDebt\<close> are at most \<open>2 ^ 50\<close> in absolute value, the
  emitted fields satisfy \<open>totalDebt = totalBorrowed + totalInterest\<close> and
  \<open>netWorth = portfolioValue - totalDebt\<close> up to one currency unit.
\<close>

theorem accounting_identities_within_one:
  assumes "calculateProjections64 inp = Inr xs" and "k < length xs"
    and "\<bar>portfolioValue (xs ! k)\<bar> \<le> 2 ^ 50" and "\<bar>totalDebt (xs ! k)\<bar> \<le> 2 ^ 50"
  shows "\<bar>totalDebt (xs ! k) - (totalBorrowed (xs ! k) + totalInterest (xs ! k))\<bar> \<le> 1
       \<and> \<bar>netWorth (xs ! k) - (portfolioValue (xs ! k) - totalDebt (xs ! k))\<bar> \<le> 1"
proof -
  have "xs ! k \<in> set xs" using assms(2) by simp
  then obtain y tb ti e b g where p: "xs ! k = emit64 inp y tb ti e b g"
    using proj_loop64_elements assms(1) unfolding calculateProjections64_def by blast
  show ?thesis
    using emit64_identities [of inp y tb ti e b g] assms(3,4) unfolding p by blast
qed

lemma plain_run:
  "calculateProjections64 plain_inputs =
     Inr [\<lparr> proj_year = 1, growthRate = 100, bitcoinPriceStart = 100000,
            bitcoinPriceEnd = 200000, portfolioValue = 200000, totalBorrowed = 10000,
            totalInterest = 0, totalDebt = 10000, netWorth = 190000, ltvRatio = Fin 10,
            proj_annualExpenses = 10000 \<rparr>]"
proof -
  have f: "years plain_inputs = 1" "growthRates plain_inputs = [\<lparr>year = 1, rate = 100\<rparr>]"
    "annualExpenses plain_inputs = 10000" "interestRate plain_inputs = 0"
    "bitcoinPrice plain_inputs = 100000" "bitcoinAmount plain_inputs = 1"
    by (simp_all add: plain_inputs_def)
  have d: "fl (1 / 10) = 3602879701896397 / 36028797018963968"
    by (subst fl_eval [where e = "- 4"]) (simp_all add: rne_def)
  have m: "fl (90071992547409925 / 9007199254740992) = 10"
    by (subst fl_eval [where e = 3]) (simp_all add: rne_def)
  show ?thesis
    unfolding one_year_run [OF f(1,2)]
    by (simp add: f emit64_def Let_def div64_def fl_numeral d m Math_round_def)
qed

theorem accounting_identities_within_one_witness:
  "calculateProjections64 plain_inputs =
     Inr [\<lparr> proj_year = 1, growthRate = 100, bitcoinPriceStart = 100000,
            bitcoinPriceEnd = 200000, portfolioValue = 200000, totalBorrowed = 10000,
            totalInterest = 0, totalDebt = 10000, netWorth = 190000, ltvRatio = Fin 10,
            proj_annualExpenses = 10000 \<rparr>]
   \<and> (0::nat) < 1 \<and> \<bar>200000::real\<bar> \<le> 2 ^ 50 \<and> \<bar>10000::real\<bar> \<le> 2 ^ 50
   \<and> \<bar>(10000::real) - (10000 + 0)\<bar> \<le> 1 \<and> \<bar>(190000::real) - (200000 - 10000)\<bar> \<le> 1"
  using accounting_identities_within_one [OF plain_run, of 0] plain_run by simp

section \<open>The search\<close>




lemma search_loop64_stop:
  "\<not> 100 < fl (high - low) \<Longrightarrow> search_loop64 inp m low high opt = Some (Inr (Math_round opt))"
  by (subst search_loop64.simps) simp





subsection \<open>A search that does not end\<close>







lemma Math_max_single [simp]: "Math_max [Fin v] = Fin v"
  by (simp add: Math_max_def)

lemma stuck_fields [simp]:
  "bitcoinAmount stuck_inputs = 1" "bitcoinPrice stuck_inputs = 576460752303423616"
  "years stuck_inputs = 1" "interestRate stuck_inputs = 0" "inflationRate stuck_inputs = 0"
  "maxLTV stuck_inputs = 100" "growthRates stuck_inputs = [\<lparr>year = 1, rate = 100\<rparr>]"
  by (simp_all add: stuck_inputs_def)




subsection \<open>No years\<close>




subsection \<open>The result is feasible\<close>


lemma price64_expenses [simp]:
  "price64 (inp\<lparr>annualExpenses := e\<rparr>) n = price64 inp n"
  by (induction n) (simp_all add: rate_used_def)









lemma collapse_fields [simp]:
  "bitcoinAmount collapse_inputs = 1" "bitcoinPrice collapse_inputs = 200"
  "years collapse_inputs = 2" "interestRate collapse_inputs = 0"
  "inflationRate collapse_inputs = 0" "maxLTV collapse_inputs = 50"
  "growthRates collapse_inputs = [\<lparr>year = 1, rate = - 100\<rparr>, \<lparr>year = 2, rate = - 100\<rparr>]"
  by (simp_all add: collapse_inputs_def collapse_schedule)



section \<open>Inputs outside the domain\<close>

lemma ltv64_not_finite:
  "\<not> is_finite (js_round (times64 (div64 d 0) 100))"
  by (simp add: div64_def)

lemma zero_value_ltv:
  "b = 0 \<or> bitcoinAmount inp = 0 \<Longrightarrow> proj_loop64 inp i tb ti e b = Inr xs \<Longrightarrow>
   p \<in> set xs \<Longrightarrow> \<not> is_finite (ltvRatio p)"
proof (induction inp i tb ti e b arbitrary: xs rule: proj_loop64.induct)
  case (1 inp i tb ti e b)
  show ?case
  proof (cases "i < years inp")
    case True
    show ?thesis
    proof (cases "lookup_growthRate (growthRates inp) (i + 1)")
      case (Inl err)
      with True 1(3) show ?thesis by (simp add: proj_loop64_throws)
    next
      case (Inr g)
      from 1(3) obtain rest where
        rest: "proj_loop64 inp (i + 1) (fl (tb + e))
                   (fl (ti + fl (tb * fl (interestRate inp / 100))))
                   (fl (e * fl (1 + fl (inflationRate inp / 100))))
                   (fl (b * fl (1 + fl (g / 100)))) = Inr rest"
        and xs: "xs = emit64 inp (i + 1) (fl (tb + e))
                   (fl (ti + fl (tb * fl (interestRate inp / 100)))) e b g # rest"
        by (auto simp: proj_loop64_step [OF True Inr] simp del: times_divide_eq_right
              split: sum.splits)
      have z: "fl (b * bitcoinAmount inp) = 0" using 1(2) by auto
      have nxt: "fl (b * fl (1 + fl (g / 100))) = 0 \<or> bitcoinAmount inp = 0"
        using 1(2) by auto
      from 1(4) xs consider "p = emit64 inp (i + 1) (fl (tb + e))
                   (fl (ti + fl (tb * fl (interestRate inp / 100)))) e b g" | "p \<in> set rest"
        by auto
      then show ?thesis
      proof cases
        case 1
        then show ?thesis by (simp add: emit64_def Let_def z ltv64_not_finite)
      next
        case 2
        from "1.IH" [OF True refl refl refl refl Inr nxt rest 2] show ?thesis .
      qed
    qed
  next
    case False
    with 1(3,4) show ?thesis by (simp add: proj_loop64_done)
  qed
qed

text \<open>
  C7 does not hold: no operation validates its arguments. With \<open>bitcoinAmount = 0\<close>
  (\<open>no_bitcoin_inputs\<close>) the projection returns normally, with \<open>ltvRatio = Infinity\<close> in
  its snapshot, and the solver returns 0.
\<close>

theorem invalid_inputs_not_rejected_counterexample:
  "bitcoinAmount no_bitcoin_inputs = 0
   \<and> calculateProjections64 no_bitcoin_inputs =
       Inr [\<lparr> proj_year = 1, growthRate = 100, bitcoinPriceStart = 100000,
              bitcoinPriceEnd = 200000, portfolioValue = 0, totalBorrowed = 10000,
              totalInterest = 0, totalDebt = 10000, netWorth = - 10000, ltvRatio = PosInf,
              proj_annualExpenses = 10000 \<rparr>]
   \<and> findOptimalAnnualExpenses64 no_bitcoin_inputs = Some (Inr 0)"
proof -
  have f: "years no_bitcoin_inputs = 1" "growthRates no_bitcoin_inputs = [\<lparr>year = 1, rate = 100\<rparr>]"
    "annualExpenses no_bitcoin_inputs = 10000" "interestRate no_bitcoin_inputs = 0"
    "bitcoinPrice no_bitcoin_inputs = 100000" "bitcoinAmount no_bitcoin_inputs = 0"
    by (simp_all add: no_bitcoin_inputs_def plain_inputs_def)
  have run: "calculateProjections64 no_bitcoin_inputs =
       Inr [\<lparr> proj_year = 1, growthRate = 100, bitcoinPriceStart = 100000,
              bitcoinPriceEnd = 200000, portfolioValue = 0, totalBorrowed = 10000,
              totalInterest = 0, totalDebt = 10000, netWorth = - 10000, ltvRatio = PosInf,
              proj_annualExpenses = 10000 \<rparr>]"
    unfolding one_year_run [OF f(1,2)]
    by (simp add: f emit64_def Let_def div64_def fl_numeral fl_minus Math_round_def)
  have "findOptimalAnnualExpenses64 no_bitcoin_inputs = Some (Inr (Math_round 0))"
    unfolding findOptimalAnnualExpenses64_def by (rule search_loop64_stop) (simp add: f)
  then show ?thesis using run f(6) by simp
qed

text \<open>
  C7, as the code behaves. The operations validate nothing and never fail with
  \<open>InvalidArgument\<close> or \<open>ArithmeticDegenerate\<close>. With \<open>years \<le> 0\<close> the projection is
  the empty sequence. With a schedule that is not empty the projection returns one
  snapshot for each year. When \<open>bitcoinPrice\<close> or \<open>bitcoinAmount\<close> is 0, the \<open>ltvRatio\<close>
  of every snapshot is \<open>NaN\<close> or an infinity, and the solver returns 0.
\<close>

theorem invalid_inputs_return_normally:
  "(years inp \<le> 0 \<longrightarrow> calculateProjections64 inp = Inr [])
   \<and> (growthRates inp \<noteq> [] \<longrightarrow>
        (\<exists>ps. calculateProjections64 inp = Inr ps \<and> length ps = nat (years inp)))
   \<and> ((bitcoinPrice inp = 0 \<or> bitcoinAmount inp = 0) \<and> calculateProjections64 inp = Inr xs
          \<and> k < length xs \<longrightarrow> \<not> is_finite (ltvRatio (xs ! k)))
   \<and> (bitcoinPrice inp = 0 \<or> bitcoinAmount inp = 0 \<longrightarrow>
        findOptimalAnnualExpenses64 inp = Some (Inr 0))"
proof (intro conjI impI)
  assume "years inp \<le> 0"
  then show "calculateProjections64 inp = Inr []"
    by (rule calculateProjections64_no_years)
next
  assume ne: "growthRates inp \<noteq> []"
  then obtain ps where ps: "calculateProjections64 inp = Inr ps"
    using calculateProjections64_total by blast
  then show "\<exists>ps. calculateProjections64 inp = Inr ps \<and> length ps = nat (years inp)"
    using calculateProjections64_length by blast
next
  assume a: "(bitcoinPrice inp = 0 \<or> bitcoinAmount inp = 0) \<and> calculateProjections64 inp = Inr xs
          \<and> k < length xs"
  then have m: "xs ! k \<in> set xs" by simp
  from a have z: "bitcoinPrice inp = 0 \<or> bitcoinAmount inp = 0"
    and r: "proj_loop64 inp 0 0 0 (annualExpenses inp) (bitcoinPrice inp) = Inr xs"
    by (simp_all add: calculateProjections64_def)
  from z r m show "\<not> is_finite (ltvRatio (xs ! k))"
    by (rule zero_value_ltv)
next
  assume "bitcoinPrice inp = 0 \<or> bitcoinAmount inp = 0"
  then have "fl (bitcoinPrice inp * bitcoinAmount inp) = 0" by auto
  then have "\<not> 100 < fl (fl (bitcoinPrice inp * bitcoinAmount inp) - 0)" by simp
  then have "findOptimalAnnualExpenses64 inp = Some (Inr (Math_round 0))"
    unfolding findOptimalAnnualExpenses64_def by (rule search_loop64_stop)
  then show "findOptimalAnnualExpenses64 inp = Some (Inr 0)" by simp
qed

theorem invalid_inputs_return_normally_witness:
  "years (plain_inputs\<lparr>years := - 1\<rparr>) \<le> 0
   \<and> calculateProjections64 (plain_inputs\<lparr>years := - 1\<rparr>) = Inr []
   \<and> growthRates no_bitcoin_inputs \<noteq> []
   \<and> (\<exists>ps. calculateProjections64 no_bitcoin_inputs = Inr ps \<and> length ps = 1)
   \<and> bitcoinAmount no_bitcoin_inputs = 0
   \<and> (\<exists>xs. calculateProjections64 no_bitcoin_inputs = Inr xs \<and> 0 < length xs
          \<and> \<not> is_finite (ltvRatio (xs ! 0)))
   \<and> findOptimalAnnualExpenses64 no_bitcoin_inputs = Some (Inr 0)"
proof -
  let ?early = "plain_inputs\<lparr>years := - 1\<rparr>"
  have y: "years ?early \<le> 0" by simp
  have a: "calculateProjections64 ?early = Inr []"
    using invalid_inputs_return_normally [of ?early] y by blast
  have ne: "growthRates no_bitcoin_inputs \<noteq> []"
    and z: "bitcoinAmount no_bitcoin_inputs = 0"
    and yrs: "years no_bitcoin_inputs = 1"
    by (simp_all add: no_bitcoin_inputs_def plain_inputs_def)
  obtain ps where ps: "calculateProjections64 no_bitcoin_inputs = Inr ps"
    and len: "length ps = nat (years no_bitcoin_inputs)"
    using invalid_inputs_return_normally [of no_bitcoin_inputs] ne by blast
  have k: "0 < length ps" using len yrs by simp
  have b: "\<not> is_finite (ltvRatio (ps ! 0))"
    using invalid_inputs_return_normally [of no_bitcoin_inputs ps 0] z ps k by blast
  have c: "findOptimalAnnualExpenses64 no_bitcoin_inputs = Some (Inr 0)"
    using invalid_inputs_return_normally [of no_bitcoin_inputs] z by blast
  have d: "\<exists>ps. calculateProjections64 no_bitcoin_inputs = Inr ps \<and> length ps = 1"
    using ps len yrs by simp
  have e: "\<exists>xs. calculateProjections64 no_bitcoin_inputs = Inr xs \<and> 0 < length xs
          \<and> \<not> is_finite (ltvRatio (xs ! 0))"
    using ps k b by blast
  show ?thesis using y a ne z c d e by blast
qed

end
